theory Spec2Isabelle
  imports Main
begin

section \<open>Trusted HTML: values, errors and strings\<close>

text \<open>
  A shallow embedding of \<^verbatim>\<open>src/types/trustedhtml.js\<close> (the class \<^verbatim>\<open>TrustedHTML\<close>) and of
  the older revision of the same module that is built with \<^verbatim>\<open>goog.provide\<close>. Private names
  of the source end in an underscore (\<^verbatim>\<open>processNode_\<close>, \<^verbatim>\<open>sanitizers_\<close>); Isabelle
  rejects such names, so the underscore is dropped here and nothing else is renamed.

  Strings are lists of characters. The exceptions the source throws itself are
  \<^verbatim>\<open>TypeError\<close>s; the model keeps one constructor for each place that raises, named as the
  specification names the failure, and one for each exception of the language or the browser
  that a statement of the source can raise:
  \<^item> \<open>UnknownSanitizerError id\<close>: \<^verbatim>\<open>TypeError('Unknown TrustedHTML sanitizer: ' + id)\<close>;
  \<^item> \<open>GateClosedError\<close>: \<^verbatim>\<open>TypeError('TrustedHTML.unsafelyCreate is not allowed.')\<close>;
  \<^item> \<open>UntrustedMarkupError\<close>:
    \<^verbatim>\<open>TypeError('TrustedHTML required when interpolating into innerHTML.')\<close>;
  \<^item> \<open>RegistryFrozenError\<close>: the \<^verbatim>\<open>TypeError\<close> of the language for an assignment to a
    property of a frozen object (class bodies and modules are strict mode code);
  \<^item> \<open>HostTypeError\<close>: any other \<^verbatim>\<open>TypeError\<close> of the language (calling a value that
    is not a function, reading a property of \<^verbatim>\<open>null\<close>, converting a symbol to a string);
  \<^item> \<open>InvalidCharacterError\<close>: the exception of \<^verbatim>\<open>setAttribute\<close> for a name it refuses;
  \<^item> \<open>ThrownError m\<close>: an exception thrown by code outside the module (the
    \<^verbatim>\<open>toString\<close> method of an expression result), named by its message.
\<close>

datatype error =
  UnknownSanitizerError string
  | GateClosedError
  | UntrustedMarkupError
  | RegistryFrozenError
  | HostTypeError
  | InvalidCharacterError
  | ThrownError string

text \<open>
  An instance of the class: the constructor stores \<^verbatim>\<open>inner_\<close>, and \<^verbatim>\<open>toString\<close> returns
  \<^verbatim>\<open>'' + this.inner_\<close>.
\<close>

datatype trustedHTML = TrustedHTML (inner: string)

definition toString :: "trustedHTML \<Rightarrow> string" where
  "toString t = [] @ inner t"

text \<open>
  An expression result of a template literal is any value of the language. The model
  separates the instances of \<^verbatim>\<open>window['TrustedHTML']\<close> (one copy of the module is loaded, so
  this is the class itself), the primitive strings, \<^verbatim>\<open>undefined\<close>, every other value
  that the language converts to a string, given by that string (a number, a boolean, an
  object with a \<^verbatim>\<open>toString\<close> method), and the values whose conversion to a string raises,
  given by the exception: \<open>VThrowing HostTypeError\<close> is a symbol or an object without a
  \<^verbatim>\<open>toString\<close> method, \<open>VThrowing (ThrownError m)\<close> an object whose \<^verbatim>\<open>toString\<close> method
  throws.
\<close>

datatype jsval =
  VTrusted trustedHTML
  | VString string
  | VUndefined
  | VOther string
  | VThrowing error

text \<open>
  The conversion of a value to a string, as \<^verbatim>\<open>setAttribute\<close> applies it to its second
  argument and \<^verbatim>\<open>replace\<close> to the result of its function.
\<close>

fun toStringJS :: "jsval \<Rightarrow> error + string" where
  "toStringJS (VTrusted t) = Inr (toString t)"
| "toStringJS (VString s) = Inr s"
| "toStringJS VUndefined = Inr ''undefined''"
| "toStringJS (VOther s) = Inr s"
| "toStringJS (VThrowing e) = Inl e"

fun isTrustedHTML :: "jsval \<Rightarrow> bool" where
  "isTrustedHTML (VTrusted t) = True"
| "isTrustedHTML v = False"

text \<open>
  \<^verbatim>\<open>this.templateExpressionResults_[k]\<close>: reading an array past its end gives
  \<^verbatim>\<open>undefined\<close>.
\<close>

definition getResult :: "jsval list \<Rightarrow> nat \<Rightarrow> jsval" where
  "getResult rs k = (if k < length rs then rs ! k else VUndefined)"

section \<open>escape\<close>

text \<open>
  \<^verbatim>\<open>s.replace(/c/g, r)\<close> for a pattern of one character \<open>c\<close> and a replacement \<open>r\<close> that
  holds no \<^verbatim>\<open>$\<close>: every occurrence of \<open>c\<close> becomes \<open>r\<close>.
\<close>

definition replaceAllChar :: "char \<Rightarrow> string \<Rightarrow> string \<Rightarrow> string" where
  "replaceAllChar c r s = concat (map (\<lambda>x. if x = c then r else [x]) s)"

definition escapeString :: "string \<Rightarrow> string" where
  "escapeString html =
     replaceAllChar (CHR 0x00) ''&#0;''
       (replaceAllChar (CHR 0x27) ''&#39;''
         (replaceAllChar (CHR 0x22) ''&quot;''
           (replaceAllChar CHR ''>'' ''&gt;''
             (replaceAllChar CHR ''<'' ''&lt;''
               (replaceAllChar CHR ''&'' ''&amp;'' html)))))"

definition escape :: "string \<Rightarrow> trustedHTML" where
  "escape html = TrustedHTML (escapeString html)"

text \<open>
  The escape sequence of one character, and the decoder of the six escape sequences: it reads
  its input from left to right, turns each of the six sequences back into its character, and
  fails (\<open>None\<close>) at a literal \<^verbatim>\<open>&\<close>, \<^verbatim>\<open><\<close>, \<^verbatim>\<open>>\<close>, double quote, single quote or NUL
  that is not part of a sequence. These two follow the wording of the specification; they are
  what \<open>escape\<close> is compared with.
\<close>

definition escapeChar :: "char \<Rightarrow> string" where
  "escapeChar c =
     (if c = CHR ''&'' then ''&amp;''
      else if c = CHR ''<'' then ''&lt;''
      else if c = CHR ''>'' then ''&gt;''
      else if c = CHR 0x22 then ''&quot;''
      else if c = CHR 0x27 then ''&#39;''
      else if c = CHR 0x00 then ''&#0;''
      else [c])"

definition specialChars :: "char list" where
  "specialChars = [CHR ''&'', CHR ''<'', CHR ''>'', CHR 0x22, CHR 0x27, CHR 0x00]"

fun stripPrefix :: "string \<Rightarrow> string \<Rightarrow> string option" where
  "stripPrefix [] s = Some s"
| "stripPrefix (p # ps) [] = None"
| "stripPrefix (p # ps) (c # cs) = (if p = c then stripPrefix ps cs else None)"

definition decodeEntity :: "string \<Rightarrow> (char \<times> string) option" where
  "decodeEntity s =
     (case stripPrefix ''&amp;'' s of Some r \<Rightarrow> Some (CHR ''&'', r) | None \<Rightarrow>
      (case stripPrefix ''&lt;'' s of Some r \<Rightarrow> Some (CHR ''<'', r) | None \<Rightarrow>
      (case stripPrefix ''&gt;'' s of Some r \<Rightarrow> Some (CHR ''>'', r) | None \<Rightarrow>
      (case stripPrefix ''&quot;'' s of Some r \<Rightarrow> Some (CHR 0x22, r) | None \<Rightarrow>
      (case stripPrefix ''&#39;'' s of Some r \<Rightarrow> Some (CHR 0x27, r) | None \<Rightarrow>
      (case stripPrefix ''&#0;'' s of Some r \<Rightarrow> Some (CHR 0x00, r) | None \<Rightarrow> None))))))"

lemma stripPrefix_length: "stripPrefix p s = Some r \<Longrightarrow> length s = length p + length r"
  by (induction p s rule: stripPrefix.induct) (auto split: if_splits)

lemma decodeEntity_shorter: "decodeEntity s = Some (c, r) \<Longrightarrow> length r < length s"
  by (auto simp: decodeEntity_def split: option.splits dest: stripPrefix_length)

function decodeEscaped :: "string \<Rightarrow> string option" where
  "decodeEscaped [] = Some []"
| "decodeEscaped (c # cs) =
     (case decodeEntity (c # cs) of
        Some (d, r) \<Rightarrow> map_option ((#) d) (decodeEscaped r)
      | None \<Rightarrow>
          (if c \<in> set specialChars then None else map_option ((#) c) (decodeEscaped cs)))"
  by pat_completeness auto
termination
  by (relation "measure length") (auto dest: decodeEntity_shorter)

section \<open>Placeholders and the regular expression\<close>

text \<open>
  \<^verbatim>\<open>'' + i\<close> for an array index \<open>i\<close>: its decimal digits.
\<close>

definition digitChar :: "nat \<Rightarrow> char" where
  "digitChar d = ''0123456789'' ! d"

fun numberToString :: "nat \<Rightarrow> string" where
  "numberToString n =
     (if n < 10 then [digitChar n] else numberToString (n div 10) @ [digitChar (n mod 10)])"

declare numberToString.simps [simp del]

text \<open>
  The placeholder that \<^verbatim>\<open>interpolate_\<close> writes for the expression \<open>i\<close>:
  \<^verbatim>\<open>'$$$' + i + '$$$'\<close>.
\<close>

definition placeholder :: "nat \<Rightarrow> string" where
  "placeholder i = ''$$$'' @ numberToString i @ ''$$$''"

text \<open>
  \<^verbatim>\<open>\d\<close> is an ASCII digit, and \<^verbatim>\<open>Number(partId)\<close> of a string of digits is its decimal
  value. (The language rounds values from \<open>2^53\<close> on; no array is that long, so the element
  read at such an index is \<^verbatim>\<open>undefined\<close> in the source and in the model.)
\<close>

definition isDigit :: "char \<Rightarrow> bool" where
  "isDigit c = (c \<in> set ''0123456789'')"

definition digitValue :: "char \<Rightarrow> nat" where
  "digitValue c = of_char c - 48"

definition Number :: "string \<Rightarrow> nat" where
  "Number partId = foldl (\<lambda>a c. 10 * a + digitValue c) 0 partId"

text \<open>
  \<^verbatim>\<open>/\$\$\$(\d+)\$\$\$/\<close> tried at the start of a string: three dollar signs, one or more
  digits, three dollar signs. The digits are taken greedily; giving one back never helps,
  since the character after the given-back prefix is a digit and not a dollar sign. The result
  is the captured group and the rest of the string after the match.
\<close>

definition matchAt :: "string \<Rightarrow> (string \<times> string) option" where
  "matchAt s =
     (case stripPrefix ''$$$'' s of
        None \<Rightarrow> None
      | Some r \<Rightarrow>
          (let partId = takeWhile isDigit r in
           if partId = [] then None
           else (case stripPrefix ''$$$'' (dropWhile isDigit r) of
                   None \<Rightarrow> None
                 | Some rest \<Rightarrow> Some (partId, rest))))"

lemma matchAt_shorter: "matchAt s = Some (p, rest) \<Longrightarrow> length rest < length s"
proof -
  assume a: "matchAt s = Some (p, rest)"
  then obtain r where r: "stripPrefix ''$$$'' s = Some r"
    by (auto simp: matchAt_def split: option.splits)
  with a have "stripPrefix ''$$$'' (dropWhile isDigit r) = Some rest"
    by (auto simp: matchAt_def Let_def split: option.splits if_splits)
  then have "length rest \<le> length (dropWhile isDigit r)"
    by (auto dest: stripPrefix_length)
  also have "\<dots> \<le> length r"
    by (rule length_dropWhile_le)
  also have "\<dots> < length s"
    using stripPrefix_length [OF r] by simp
  finally show ?thesis .
qed

text \<open>
  The matches of the global expression in a string, from left to right and without overlap,
  as the language finds them for \<^verbatim>\<open>replace\<close> and \<^verbatim>\<open>match\<close>: the string is cut into
  its characters outside any match (\<open>Inl\<close>) and its matches (\<open>Inr\<close> of the captured
  group).
\<close>

function scanPlaceholders :: "string \<Rightarrow> (char + string) list" where
  "scanPlaceholders [] = []"
| "scanPlaceholders (c # cs) =
     (case matchAt (c # cs) of
        Some (partId, rest) \<Rightarrow> Inr partId # scanPlaceholders rest
      | None \<Rightarrow> Inl c # scanPlaceholders cs)"
  by pat_completeness auto
termination
  by (relation "measure length") (auto dest: matchAt_shorter)

text \<open>
  \<^verbatim>\<open>s.match(re)\<close> as the source uses it: \<open>None\<close> is \<^verbatim>\<open>null\<close>, and \<open>Some partId\<close>
  carries the group \<^verbatim>\<open>match[1]\<close> of the leftmost match. With the global expression the
  source only tests the result for \<^verbatim>\<open>null\<close>.
\<close>

fun firstMatch :: "(char + string) list \<Rightarrow> string option" where
  "firstMatch [] = None"
| "firstMatch (Inl c # ts) = firstMatch ts"
| "firstMatch (Inr partId # ts) = Some partId"

definition matchRegexp :: "string \<Rightarrow> string option" where
  "matchRegexp s = firstMatch (scanPlaceholders s)"

text \<open>
  \<^verbatim>\<open>s.replace(re, f)\<close> with the global expression and a function \<open>f\<close> of the captured
  group: the function is called for each match from left to right, the first exception it
  raises leaves the call, and its results are inserted as they are (the result of a function
  is not scanned for \<^verbatim>\<open>$\<close> patterns).
\<close>

fun replaceScanned :: "(string \<Rightarrow> error + string) \<Rightarrow> (char + string) list \<Rightarrow> error + string" where
  "replaceScanned f [] = Inr []"
| "replaceScanned f (Inl c # ts) =
     (case replaceScanned f ts of Inl e \<Rightarrow> Inl e | Inr r \<Rightarrow> Inr (c # r))"
| "replaceScanned f (Inr partId # ts) =
     (case f partId of
        Inl e \<Rightarrow> Inl e
      | Inr v \<Rightarrow> (case replaceScanned f ts of Inl e \<Rightarrow> Inl e | Inr r \<Rightarrow> Inr (v @ r)))"

definition replaceRegexp :: "(string \<Rightarrow> error + string) \<Rightarrow> string \<Rightarrow> error + string" where
  "replaceRegexp f s = replaceScanned f (scanPlaceholders s)"

text \<open>
  The string with each match replaced by \<open>g\<close> of its captured group and every other
  character kept: what \<^verbatim>\<open>replace\<close> returns for a function that never raises.
\<close>

definition substituted :: "(string \<Rightarrow> string) \<Rightarrow> string \<Rightarrow> string" where
  "substituted g s = concat (map (case_sum (\<lambda>c. [c]) g) (scanPlaceholders s))"

text \<open>The captured groups of all matches, in order: the arguments the function receives.\<close>

fun partIds :: "(char + string) list \<Rightarrow> string list" where
  "partIds [] = []"
| "partIds (Inl c # ts) = partIds ts"
| "partIds (Inr partId # ts) = partId # partIds ts"

section \<open>The document tree and its host\<close>

text \<open>
  The nodes below \<^verbatim>\<open>doc.documentElement\<close> of a parsed HTML document: elements (tag name,
  attributes in order, children), text nodes and comments. The parser, the serialiser behind
  the getter of \<^verbatim>\<open>innerHTML\<close> and the fragment parser behind its setter belong to the
  browser, not to this module; they are the three fields of a host:
  \<^item> \<open>parseFromString h s\<close> is the element \<^verbatim>\<open>documentElement\<close> of
    \<^verbatim>\<open>new DOMParser().parseFromString(s, 'text/html')\<close>;
  \<^item> \<open>getInnerHTML h tag children\<close> is \<^verbatim>\<open>node.innerHTML\<close> of an element with this tag and
    these children;
  \<^item> \<open>setInnerHTML h tag s\<close> is the list of children that \<^verbatim>\<open>node.innerHTML = s\<close> gives an
    element with this tag.

  The contents of a \<^verbatim>\<open>template\<close> element are no child nodes of it: they hang on its
  property \<^verbatim>\<open>content\<close>, the iterator of \<^verbatim>\<open>interpolate_\<close> never reaches them, and the
  serialiser writes them. So a \<^verbatim>\<open>template\<close> element is a node of its own kind, with its
  attributes and its contents, and without children.
\<close>

datatype node =
  Element string "(string \<times> string) list" "node list"
  | Text string
  | Comment string
  | Template "(string \<times> string) list" "node list"

record host =
  parseFromString :: "string \<Rightarrow> node"
  getInnerHTML :: "string \<Rightarrow> node list \<Rightarrow> string"
  setInnerHTML :: "string \<Rightarrow> string \<Rightarrow> node list"

definition isLeafElementNode :: "node \<Rightarrow> bool" where
  "isLeafElementNode n =
     (case n of
        Element tag attrs children \<Rightarrow>
          length children = 1 \<and> (case children ! 0 of Text v \<Rightarrow> True | _ \<Rightarrow> False)
      | _ \<Rightarrow> False)"

definition replaceWithExpressionResult :: "jsval list \<Rightarrow> string \<Rightarrow> jsval" where
  "replaceWithExpressionResult rs partId = getResult rs (Number partId)"

text \<open>
  \<^verbatim>\<open>node.setAttribute(name, value)\<close>: the value is converted to a string, which may raise;
  then a name that does not match the production \<^verbatim>\<open>Name\<close> of XML is refused with
  \<open>InvalidCharacterError\<close> (the HTML parser accepts more names than that, \<^verbatim>\<open>@click\<close> for
  one); then the string is stored as it is: an attribute of this name keeps its place, a new
  one is appended. (For an HTML element \<^verbatim>\<open>setAttribute\<close> puts the name in lower case
  first; the names that the parser gives such an element are in lower case already.) The
  production, for the characters of the model (code units below 256): a name starts with a
  letter, a colon or an underscore and goes on with these, digits, hyphens, full stops and
  the middle dot.
\<close>

definition isNameStartChar :: "char \<Rightarrow> bool" where
  "isNameStartChar c =
     (let n = (of_char c :: nat) in
      n = 58 \<or> (65 \<le> n \<and> n \<le> 90) \<or> n = 95 \<or> (97 \<le> n \<and> n \<le> 122)
      \<or> (192 \<le> n \<and> n \<le> 214) \<or> (216 \<le> n \<and> n \<le> 246) \<or> 248 \<le> n)"

definition isNameChar :: "char \<Rightarrow> bool" where
  "isNameChar c =
     (let n = (of_char c :: nat) in
      isNameStartChar c \<or> n = 45 \<or> n = 46 \<or> (48 \<le> n \<and> n \<le> 57) \<or> n = 183)"

fun matchesName :: "string \<Rightarrow> bool" where
  "matchesName [] = False"
| "matchesName (c # cs) = (isNameStartChar c \<and> list_all isNameChar cs)"

fun storeAttribute :: "(string \<times> string) list \<Rightarrow> string \<Rightarrow> string \<Rightarrow> (string \<times> string) list" where
  "storeAttribute [] name v = [(name, v)]"
| "storeAttribute ((n, w) # attrs) name v =
     (if n = name then (n, v) # attrs else (n, w) # storeAttribute attrs name v)"

definition setAttribute :: "(string \<times> string) list \<Rightarrow> string \<Rightarrow> jsval \<Rightarrow> error + (string \<times> string) list" where
  "setAttribute attrs name value =
     (case toStringJS value of
        Inl e \<Rightarrow> Inl e
      | Inr v \<Rightarrow>
          if \<not> matchesName name then Inl InvalidCharacterError
          else Inr (storeAttribute attrs name v))"

text \<open>
  The loop over the attributes, \<^verbatim>\<open>[].slice.call(node.attributes).forEach(...)\<close>: the names
  are those of the copy taken before the loop, and \<^verbatim>\<open>attr.value\<close> is read from the element
  when the attribute's turn comes. The expression for attributes is not global and not
  anchored: a value that holds a placeholder anywhere is replaced as a whole by the result of
  the first placeholder in it. An exception of \<^verbatim>\<open>setAttribute\<close> leaves the loop.
\<close>

fun forEachAttribute :: "jsval list \<Rightarrow> string list \<Rightarrow> (string \<times> string) list \<Rightarrow> error + (string \<times> string) list" where
  "forEachAttribute rs [] attrs = Inr attrs"
| "forEachAttribute rs (name # names) attrs =
     (case (case map_of attrs name of
              None \<Rightarrow> Inr attrs
            | Some v \<Rightarrow>
                (case matchRegexp v of
                   None \<Rightarrow> Inr attrs
                 | Some partId \<Rightarrow> setAttribute attrs name (getResult rs (Number partId)))) of
        Inl e \<Rightarrow> Inl e
      | Inr attrs' \<Rightarrow> forEachAttribute rs names attrs')"

definition processAttributes :: "jsval list \<Rightarrow> (string \<times> string) list \<Rightarrow> error + (string \<times> string) list" where
  "processAttributes rs attrs = forEachAttribute rs (map fst attrs) attrs"

text \<open>
  The function given to \<^verbatim>\<open>replace\<close> for the inner HTML of a leaf element: it raises unless
  the expression result is an instance of \<^verbatim>\<open>window['TrustedHTML']\<close>, and \<^verbatim>\<open>replace\<close>
  converts the instance it returns to a string.
\<close>

definition requireTrustedHTML :: "jsval list \<Rightarrow> string \<Rightarrow> error + string" where
  "requireTrustedHTML rs partId =
     (let v = getResult rs (Number partId) in
      if \<not> isTrustedHTML v then Inl UntrustedMarkupError else toStringJS v)"

text \<open>
  The function given to \<^verbatim>\<open>replace\<close> for a text node, \<^verbatim>\<open>replaceWithExpressionResult_\<close>: it
  returns the expression result, unchecked, and \<^verbatim>\<open>replace\<close> converts it to a string, which
  may raise.
\<close>

definition expressionResultString :: "jsval list \<Rightarrow> string \<Rightarrow> error + string" where
  "expressionResultString rs partId = toStringJS (replaceWithExpressionResult rs partId)"

text \<open>
  \<^verbatim>\<open>processNode_\<close>: its three \<^verbatim>\<open>if\<close> statements, by the kind of the node. The first and
  the second apply to an element, the third to a text node, none to a comment. A
  \<^verbatim>\<open>template\<close> element is an element without child nodes: the first applies to it, and it
  is no leaf element.
\<close>

fun processNode :: "host \<Rightarrow> jsval list \<Rightarrow> node \<Rightarrow> error + node" where
  "processNode h rs (Element tag attrs children) =
     (case processAttributes rs attrs of
        Inl e \<Rightarrow> Inl e
      | Inr attrs' \<Rightarrow>
          if isLeafElementNode (Element tag attrs' children) then
            (if matchRegexp (getInnerHTML h tag children) \<noteq> None then
               (case replaceRegexp (requireTrustedHTML rs) (getInnerHTML h tag children) of
                  Inl e \<Rightarrow> Inl e
                | Inr s \<Rightarrow>
                    Inr (Element tag attrs' (setInnerHTML h tag (toString (TrustedHTML s)))))
             else Inr (Element tag attrs' children))
          else Inr (Element tag attrs' children))"
| "processNode h rs (Text v) =
     (if matchRegexp v \<noteq> None
      then (case replaceRegexp (expressionResultString rs) v of
              Inl e \<Rightarrow> Inl e
            | Inr s \<Rightarrow> Inr (Text s))
      else Inr (Text v))"
| "processNode h rs (Comment v) = Inr (Comment v)"
| "processNode h rs (Template attrs content) =
     (case processAttributes rs attrs of
        Inl e \<Rightarrow> Inl e
      | Inr attrs' \<Rightarrow> Inr (Template attrs' content))"

declare processNode.simps [simp del]

text \<open>
  The older revision differs in the loop over the attributes only: it uses the global
  expression and replaces each placeholder inside the value,
  \<^verbatim>\<open>attr.value = attr.value.replace(..., this.replaceWithExpressionResult_.bind(this))\<close>.
  The assignment to \<^verbatim>\<open>attr.value\<close> checks no name; the conversion of a result to a string
  by \<^verbatim>\<open>replace\<close> may raise.
\<close>

fun setAttrValue :: "(string \<times> string) list \<Rightarrow> string \<Rightarrow> string \<Rightarrow> (string \<times> string) list" where
  "setAttrValue [] name v = []"
| "setAttrValue ((n, w) # attrs) name v =
     (if n = name then (n, v) # attrs else (n, w) # setAttrValue attrs name v)"

fun forEachAttribute_legacy :: "jsval list \<Rightarrow> string list \<Rightarrow> (string \<times> string) list \<Rightarrow> error + (string \<times> string) list" where
  "forEachAttribute_legacy rs [] attrs = Inr attrs"
| "forEachAttribute_legacy rs (name # names) attrs =
     (case (case map_of attrs name of
              None \<Rightarrow> Inr attrs
            | Some v \<Rightarrow>
                (if matchRegexp v \<noteq> None
                 then (case replaceRegexp (expressionResultString rs) v of
                         Inl e \<Rightarrow> Inl e
                       | Inr s \<Rightarrow> Inr (setAttrValue attrs name s))
                 else Inr attrs)) of
        Inl e \<Rightarrow> Inl e
      | Inr attrs' \<Rightarrow> forEachAttribute_legacy rs names attrs')"

definition processAttributes_legacy :: "jsval list \<Rightarrow> (string \<times> string) list \<Rightarrow> error + (string \<times> string) list" where
  "processAttributes_legacy rs attrs = forEachAttribute_legacy rs (map fst attrs) attrs"

fun processNode_legacy :: "host \<Rightarrow> jsval list \<Rightarrow> node \<Rightarrow> error + node" where
  "processNode_legacy h rs (Element tag attrs children) =
     (case processAttributes_legacy rs attrs of
        Inl e \<Rightarrow> Inl e
      | Inr attrs' \<Rightarrow>
          if isLeafElementNode (Element tag attrs' children) then
            (if matchRegexp (getInnerHTML h tag children) \<noteq> None then
               (case replaceRegexp (requireTrustedHTML rs) (getInnerHTML h tag children) of
                  Inl e \<Rightarrow> Inl e
                | Inr s \<Rightarrow>
                    Inr (Element tag attrs' (setInnerHTML h tag (toString (TrustedHTML s)))))
             else Inr (Element tag attrs' children))
          else Inr (Element tag attrs' children))"
| "processNode_legacy h rs (Text v) =
     (if matchRegexp v \<noteq> None
      then (case replaceRegexp (expressionResultString rs) v of
              Inl e \<Rightarrow> Inl e
            | Inr s \<Rightarrow> Inr (Text s))
      else Inr (Text v))"
| "processNode_legacy h rs (Comment v) = Inr (Comment v)"
| "processNode_legacy h rs (Template attrs content) =
     (case processAttributes_legacy rs attrs of
        Inl e \<Rightarrow> Inl e
      | Inr attrs' \<Rightarrow> Inr (Template attrs' content))"

declare processNode_legacy.simps [simp del]

section \<open>interpolate and fromTemplateLiteral\<close>

text \<open>
  The loop \<^verbatim>\<open>while (node = iterator.nextNode()) this.processNode_(node)\<close>. The iterator
  gives the nodes below and including the root in document order (the child nodes: not the
  contents of a \<^verbatim>\<open>template\<close> element), and it follows the changes
  \<^verbatim>\<open>processNode_\<close> makes: after an element whose children were replaced it goes on with the
  new children. An exception of \<^verbatim>\<open>processNode_\<close> leaves the loop. The loop need not end,
  since new children may hold placeholders again, so the traversal carries fuel, one unit for
  each level of nesting it descends: \<open>None\<close> says that the fuel did not suffice.
\<close>

fun processTree :: "host \<Rightarrow> jsval list \<Rightarrow> nat \<Rightarrow> node \<Rightarrow> (error + node) option"
  and processChildren :: "host \<Rightarrow> jsval list \<Rightarrow> nat \<Rightarrow> node list \<Rightarrow> (error + node list) option"
where
  "processTree h rs 0 n = None"
| "processTree h rs (Suc fuel) n =
     (case processNode h rs n of
        Inl e \<Rightarrow> Some (Inl e)
      | Inr (Element tag attrs children) \<Rightarrow>
          (case processChildren h rs fuel children of
             None \<Rightarrow> None
           | Some (Inl e) \<Rightarrow> Some (Inl e)
           | Some (Inr children') \<Rightarrow> Some (Inr (Element tag attrs children')))
      | Inr (Text v) \<Rightarrow> Some (Inr (Text v))
      | Inr (Comment v) \<Rightarrow> Some (Inr (Comment v))
      | Inr (Template attrs content) \<Rightarrow> Some (Inr (Template attrs content)))"
| "processChildren h rs fuel [] = Some (Inr [])"
| "processChildren h rs fuel (c # cs) =
     (case processTree h rs fuel c of
        None \<Rightarrow> None
      | Some (Inl e) \<Rightarrow> Some (Inl e)
      | Some (Inr c') \<Rightarrow>
          (case processChildren h rs fuel cs of
             None \<Rightarrow> None
           | Some (Inl e) \<Rightarrow> Some (Inl e)
           | Some (Inr cs') \<Rightarrow> Some (Inr (c' # cs'))))"

text \<open>
  The first loop of \<^verbatim>\<open>interpolate_\<close>, from the index \<open>i\<close> on: each template part, followed
  by a placeholder when the array of expression results has the index
  (\<^verbatim>\<open>hasOwnProperty(i)\<close> on the array of the rest parameter).
\<close>

fun joinParts :: "string list \<Rightarrow> nat \<Rightarrow> jsval list \<Rightarrow> string" where
  "joinParts [] i rs = []"
| "joinParts (part # parts) i rs =
     part @ (if i < length rs then placeholder i else []) @ joinParts parts (Suc i) rs"

text \<open>
  \<^verbatim>\<open>doc.body\<close>: the first child of the root element that is a \<^verbatim>\<open>body\<close> or a
  \<^verbatim>\<open>frameset\<close> element, or \<^verbatim>\<open>null\<close>.
\<close>

fun isBody :: "node \<Rightarrow> bool" where
  "isBody (Element tag attrs children) = (tag = ''body'' \<or> tag = ''frameset'')"
| "isBody n = False"

fun documentBody :: "node \<Rightarrow> node option" where
  "documentBody (Element tag attrs children) = find isBody children"
| "documentBody n = None"

text \<open>
  \<^verbatim>\<open>doc.body.innerHTML\<close>. (Of a node that is no element the property is \<^verbatim>\<open>undefined\<close>;
  the body is an element.)
\<close>

fun innerHTML :: "host \<Rightarrow> node \<Rightarrow> string" where
  "innerHTML h (Element tag attrs children) = getInnerHTML h tag children"
| "innerHTML h (Template attrs content) = getInnerHTML h ''template'' content"
| "innerHTML h (Text v) = ''undefined''"
| "innerHTML h (Comment v) = ''undefined''"

definition interpolate :: "host \<Rightarrow> nat \<Rightarrow> string list \<Rightarrow> jsval list \<Rightarrow> (error + string) option" where
  "interpolate h fuel templateParts rs =
     (let replaced = joinParts templateParts 0 rs;
          doc = parseFromString h (''<body>'' @ replaced @ ''</body>'')
      in case processTree h rs fuel doc of
           None \<Rightarrow> None
         | Some (Inl e) \<Rightarrow> Some (Inl e)
         | Some (Inr doc') \<Rightarrow>
             (case documentBody doc' of
                None \<Rightarrow> Some (Inl HostTypeError)
              | Some b \<Rightarrow> Some (Inr (innerHTML h b))))"

text \<open>
  \<^verbatim>\<open>new TrustedHTML('', strings, expressions)\<close>: an array is never falsy, so the constructor
  always interpolates, and the instance holds what \<^verbatim>\<open>interpolate_\<close> assigned to
  \<^verbatim>\<open>inner_\<close>.
\<close>

definition fromTemplateLiteral :: "host \<Rightarrow> nat \<Rightarrow> string list \<Rightarrow> jsval list \<Rightarrow> (error + trustedHTML) option" where
  "fromTemplateLiteral h fuel strings expressions =
     (case interpolate h fuel strings expressions of
        None \<Rightarrow> None
      | Some (Inl e) \<Rightarrow> Some (Inl e)
      | Some (Inr s) \<Rightarrow> Some (Inr (TrustedHTML s)))"

text \<open>
  A node of a tree is named by its path: the indices of the children to follow from the root.
\<close>

fun nodeAt :: "node \<Rightarrow> nat list \<Rightarrow> node option" where
  "nodeAt n [] = Some n"
| "nodeAt (Element tag attrs children) (i # path) =
     (if i < length children then nodeAt (children ! i) path else None)"
| "nodeAt (Text v) (i # path) = None"
| "nodeAt (Comment v) (i # path) = None"
| "nodeAt (Template attrs content) (i # path) = None"

text \<open>
  A tree in which \<^verbatim>\<open>processNode_\<close> finds nothing to replace: no attribute value, no inner
  HTML of a leaf element and no text node holds a placeholder (the contents of a
  \<^verbatim>\<open>template\<close> element may hold some: they are not visited). And the number of levels of a
  tree, which is the fuel its traversal needs when no node changes.
\<close>

fun noPlaceholders :: "host \<Rightarrow> node \<Rightarrow> bool" where
  "noPlaceholders h (Element tag attrs children) =
     ((\<forall>a \<in> set attrs. matchRegexp (snd a) = None)
      \<and> (isLeafElementNode (Element tag attrs children) \<longrightarrow>
             matchRegexp (getInnerHTML h tag children) = None)
      \<and> (\<forall>c \<in> set children. noPlaceholders h c))"
| "noPlaceholders h (Text v) = (matchRegexp v = None)"
| "noPlaceholders h (Comment v) = True"
| "noPlaceholders h (Template attrs content) = (\<forall>a \<in> set attrs. matchRegexp (snd a) = None)"

fun depth :: "node \<Rightarrow> nat" where
  "depth (Element tag attrs children) = Suc (foldr (\<lambda>c m. max (depth c) m) children 0)"
| "depth (Text v) = Suc 0"
| "depth (Comment v) = Suc 0"
| "depth (Template attrs content) = Suc 0"


text \<open>
  A tree that resolves: \<^verbatim>\<open>processNode_\<close> raises at none of its nodes, and the children
  that replace those of a leaf element hold no placeholder (the traversal goes on with them,
  and finds nothing to replace).
\<close>

fun resolves :: "host \<Rightarrow> jsval list \<Rightarrow> node \<Rightarrow> bool" where
  "resolves h rs (Element tag attrs children) =
     (case processNode h rs (Element tag attrs children) of
        Inl e \<Rightarrow> False
      | Inr n \<Rightarrow>
          if isLeafElementNode (Element tag attrs children)
             \<and> matchRegexp (getInnerHTML h tag children) \<noteq> None
          then (case n of
                  Element t a cs \<Rightarrow> \<forall>c \<in> set cs. noPlaceholders h c
                | _ \<Rightarrow> False)
          else \<forall>c \<in> set children. resolves h rs c)"
| "resolves h rs (Text v) = (case processNode h rs (Text v) of Inl e \<Rightarrow> False | Inr n \<Rightarrow> True)"
| "resolves h rs (Comment v) = True"
| "resolves h rs (Template attrs content) =
     (case processNode h rs (Template attrs content) of Inl e \<Rightarrow> False | Inr n \<Rightarrow> True)"

section \<open>The configuration: sanitizers and allowUnsafelyCreate\<close>

text \<open>
  A sanitizer is a function object: a function of the program, with the properties the
  language gives every function and none that the program added. The model keeps
  \<^item> its identity: the language compares objects by identity, and two references to one
    function are the same object;
  \<^item> the function from strings to strings that a call of it computes;
  \<^item> what a read of a property of \<^verbatim>\<open>sanitizers_\<close> finds through it when it is the prototype
    of \<^verbatim>\<open>sanitizers_\<close> (the function object, then \<^verbatim>\<open>Function.prototype\<close>, then
    \<^verbatim>\<open>Object.prototype\<close>): \<open>through f name\<close> is \<open>None\<close> when the read finds nothing or a
    falsy value, and \<open>Some g\<close> when it finds a value, \<open>g html\<close> being what the call of that
    value on \<open>html\<close> with \<^verbatim>\<open>sanitizers_\<close> as \<^verbatim>\<open>this\<close> gives: an exception (also when the
    value is no function or the read itself raises), or the string form of the result;
  \<^item> whether an assignment to a property of \<^verbatim>\<open>sanitizers_\<close> may make an own property when
    the function object is the prototype: \<open>writable f name\<close> is false when the function
    object or \<^verbatim>\<open>Function.prototype\<close> has a property of this name that is not writable,
    or an accessor that raises (\<^verbatim>\<open>name\<close>, \<^verbatim>\<open>length\<close>, \<^verbatim>\<open>caller\<close>, \<^verbatim>\<open>arguments\<close>); the
    assignment raises a \<^verbatim>\<open>TypeError\<close> then.
  The last two depend on the kind of function and on the engine, so they are given with the
  function object; they concern names other than \<^verbatim>\<open>__proto__\<close>.
\<close>

record functionObject =
  objectId :: nat
  invoke :: "string \<Rightarrow> string"
  through :: "string \<Rightarrow> (string \<Rightarrow> error + string) option"
  writable :: "string \<Rightarrow> bool"

text \<open>
  The two objects of the module, \<^verbatim>\<open>sanitizers_\<close> and \<^verbatim>\<open>allowUnsafelyCreate_\<close>: the own
  properties of the first and its prototype (\<open>None\<close> is \<^verbatim>\<open>Object.prototype\<close>, the
  prototype of the object literal; \<open>Some f\<close> is a function object that an assignment to
  \<^verbatim>\<open>sanitizers_['__proto__']\<close> has put in its place), the property \<^verbatim>\<open>'allowed'\<close> of the
  second, and for each whether \<^verbatim>\<open>Object.freeze\<close> was applied to it. When the module is
  loaded there is no sanitizer, \<^verbatim>\<open>'allowed'\<close> is \<^verbatim>\<open>true\<close> and nothing is frozen.
\<close>

record config =
  sanitizers :: "string \<rightharpoonup> functionObject"
  sanitizersPrototype :: "functionObject option"
  allowed :: bool
  sanitizersFrozen :: bool
  allowUnsafelyCreateFrozen :: bool

definition initialConfig :: config where
  "initialConfig =
     \<lparr>sanitizers = Map.empty, sanitizersPrototype = None, allowed = True,
      sanitizersFrozen = False, allowUnsafelyCreateFrozen = False\<rparr>"

definition DEFAULT_SANITIZER :: string where
  "DEFAULT_SANITIZER = ''default''"

text \<open>
  \<^verbatim>\<open>sanitizers_[id]\<close> finds the own property \<open>id\<close> and, when there is none, the property
  \<open>id\<close> of the prototype. These are the names of the properties of \<^verbatim>\<open>Object.prototype\<close>;
  all but \<^verbatim>\<open>__proto__\<close> are functions. \<^verbatim>\<open>__proto__\<close> is an accessor: a read of it
  returns the prototype of \<^verbatim>\<open>sanitizers_\<close>, whatever that is.
\<close>

definition objectPrototypeNames :: "string list" where
  "objectPrototypeNames =
     [''constructor'', ''hasOwnProperty'', ''isPrototypeOf'', ''propertyIsEnumerable'',
      ''toLocaleString'', ''toString'', ''valueOf'', ''__proto__'',
      ''__defineGetter__'', ''__defineSetter__'', ''__lookupGetter__'', ''__lookupSetter__'']"

datatype property =
  Own functionObject
  | Inherited string
  | Through "string \<Rightarrow> error + string"

definition getSanitizer :: "config \<Rightarrow> string \<Rightarrow> property option" where
  "getSanitizer c name =
     (case sanitizers c name of
        Some f \<Rightarrow> Some (Own f)
      | None \<Rightarrow>
          (case sanitizersPrototype c of
             None \<Rightarrow> if name \<in> set objectPrototypeNames then Some (Inherited name) else None
           | Some f \<Rightarrow>
               if name = ''__proto__'' then Some (Own f)
               else (case through f name of None \<Rightarrow> None | Some g \<Rightarrow> Some (Through g))))"

text \<open>
  \<^verbatim>\<open>sanitizers_[id](html)\<close> for a property inherited from \<^verbatim>\<open>Object.prototype\<close>, with
  \<^verbatim>\<open>sanitizers_\<close> as \<^verbatim>\<open>this\<close>; the result is given as the string \<^verbatim>\<open>toString\<close> of the new
  instance returns (\<^verbatim>\<open>'' + this.inner_\<close>):
  \<^item> \<^verbatim>\<open>constructor\<close> is \<^verbatim>\<open>Object\<close>, and \<^verbatim>\<open>Object(html)\<close> is a String object of the same
    characters;
  \<^item> \<^verbatim>\<open>hasOwnProperty\<close> and \<^verbatim>\<open>propertyIsEnumerable\<close> say whether \<open>html\<close> is the name of a
    registered sanitizer; \<^verbatim>\<open>isPrototypeOf\<close> of a string is \<^verbatim>\<open>false\<close>;
  \<^item> \<^verbatim>\<open>toString\<close>, \<^verbatim>\<open>toLocaleString\<close> and \<^verbatim>\<open>valueOf\<close> give \<^verbatim>\<open>[object Object]\<close>;
  \<^item> \<^verbatim>\<open>__proto__\<close> is not a function, and \<^verbatim>\<open>__defineGetter__\<close> and
    \<^verbatim>\<open>__defineSetter__\<close> reject a missing second argument: a \<^verbatim>\<open>TypeError\<close>;
  \<^item> \<^verbatim>\<open>__lookupGetter__\<close> and \<^verbatim>\<open>__lookupSetter__\<close> return \<^verbatim>\<open>undefined\<close> for a name
    that is no accessor; for the accessor \<^verbatim>\<open>__proto__\<close> they return its getter and its
    setter, functions of the engine, whose string forms are written here as V8 prints them.
\<close>

definition callInherited :: "config \<Rightarrow> string \<Rightarrow> string \<Rightarrow> error + string" where
  "callInherited c name html =
     (if name = ''constructor'' then Inr html
      else if name = ''hasOwnProperty'' \<or> name = ''propertyIsEnumerable''
        then Inr (if sanitizers c html \<noteq> None then ''true'' else ''false'')
      else if name = ''isPrototypeOf'' then Inr ''false''
      else if name = ''toString'' \<or> name = ''toLocaleString'' \<or> name = ''valueOf''
        then Inr ''[object Object]''
      else if name = ''__lookupGetter__''
        then Inr (if html = ''__proto__'' \<and> sanitizers c html = None
                  then ''function get __proto__() { [native code] }'' else ''undefined'')
      else if name = ''__lookupSetter__''
        then Inr (if html = ''__proto__'' \<and> sanitizers c html = None
                  then ''function set __proto__() { [native code] }'' else ''undefined'')
      else Inl HostTypeError)"

definition sanitize :: "config \<Rightarrow> string \<Rightarrow> string option \<Rightarrow> error + trustedHTML" where
  "sanitize c html optSanitizerId =
     (let sanitizerId = (case optSanitizerId of None \<Rightarrow> DEFAULT_SANITIZER | Some i \<Rightarrow> i) in
      case getSanitizer c sanitizerId of
        None \<Rightarrow> Inl (UnknownSanitizerError sanitizerId)
      | Some (Own f) \<Rightarrow> Inr (TrustedHTML (invoke f html))
      | Some (Inherited name) \<Rightarrow>
          (case callInherited c name html of
             Inl e \<Rightarrow> Inl e
           | Inr s \<Rightarrow> Inr (TrustedHTML s))
      | Some (Through g) \<Rightarrow>
          (case g html of
             Inl e \<Rightarrow> Inl e
           | Inr s \<Rightarrow> Inr (TrustedHTML s)))"

text \<open>
  The operations that write to the configuration return the outcome of the call together with
  the configuration after it: an assignment that raises has written nothing.

  \<^verbatim>\<open>registerSanitizer\<close> is the assignment \<^verbatim>\<open>sanitizers_[id] = sanitizer\<close>; its
  argument is a function, as its declaration says.
  \<^item> For the name \<^verbatim>\<open>__proto__\<close> (of which \<^verbatim>\<open>sanitizers_\<close> has no own property) the
    assignment calls the setter of the accessor, which sets the prototype of
    \<^verbatim>\<open>sanitizers_\<close>. An object that is not frozen takes the new prototype. A frozen object
    keeps its prototype: setting the prototype it already has succeeds and changes nothing,
    setting another one raises a \<^verbatim>\<open>TypeError\<close>.
  \<^item> For every other name the assignment raises a \<^verbatim>\<open>TypeError\<close> on a frozen object.
    Otherwise it overwrites the own property of the name; where there is none, it makes one,
    unless the prototype is a function object through which the name is not writable: then
    it raises a \<^verbatim>\<open>TypeError\<close>.
\<close>

definition isPrototype :: "config \<Rightarrow> functionObject \<Rightarrow> bool" where
  "isPrototype c f =
     (case sanitizersPrototype c of None \<Rightarrow> False | Some g \<Rightarrow> objectId g = objectId f)"

definition mayMakeProperty :: "config \<Rightarrow> string \<Rightarrow> bool" where
  "mayMakeProperty c name =
     (sanitizers c name \<noteq> None
      \<or> (case sanitizersPrototype c of None \<Rightarrow> True | Some g \<Rightarrow> writable g name))"

definition registerSanitizer :: "config \<Rightarrow> functionObject \<Rightarrow> string option \<Rightarrow> (error + unit) \<times> config" where
  "registerSanitizer c sanitizer optSanitizerId =
     (let sanitizerId = (case optSanitizerId of None \<Rightarrow> DEFAULT_SANITIZER | Some i \<Rightarrow> i) in
      if sanitizerId = ''__proto__'' \<and> sanitizers c sanitizerId = None then
        (if sanitizersFrozen c then
           (if isPrototype c sanitizer then (Inr (), c) else (Inl RegistryFrozenError, c))
         else (Inr (), c\<lparr>sanitizersPrototype := Some sanitizer\<rparr>))
      else if sanitizersFrozen c then (Inl RegistryFrozenError, c)
      else if \<not> mayMakeProperty c sanitizerId then (Inl HostTypeError, c)
      else (Inr (), c\<lparr>sanitizers := (sanitizers c)(sanitizerId \<mapsto> sanitizer)\<rparr>))"

definition unsafelyCreate :: "config \<Rightarrow> string \<Rightarrow> error + trustedHTML" where
  "unsafelyCreate c html =
     (if \<not> allowed c then Inl GateClosedError else Inr (TrustedHTML html))"

text \<open>The older revision has no such switch: its \<^verbatim>\<open>unsafelyCreate\<close> always returns.\<close>

definition unsafelyCreate_legacy :: "string \<Rightarrow> trustedHTML" where
  "unsafelyCreate_legacy html = TrustedHTML html"

text \<open>
  The setter and the getter of the static property \<^verbatim>\<open>allowUnsafelyCreate\<close>; the argument
  of the setter is the truth value \<^verbatim>\<open>!!value\<close>.
\<close>

definition set_allowUnsafelyCreate :: "config \<Rightarrow> bool \<Rightarrow> (error + unit) \<times> config" where
  "set_allowUnsafelyCreate c v =
     (if allowUnsafelyCreateFrozen c then (Inl RegistryFrozenError, c)
      else (Inr (), c\<lparr>allowed := v\<rparr>))"

definition get_allowUnsafelyCreate :: "config \<Rightarrow> bool" where
  "get_allowUnsafelyCreate c = allowed c"

definition freezeConfiguration :: "config \<Rightarrow> config" where
  "freezeConfiguration c = c\<lparr>sanitizersFrozen := True, allowUnsafelyCreateFrozen := True\<rparr>"

section \<open>A host for the examples\<close>

text \<open>
  The properties below hold for every host. Their instances at concrete inputs need one: this
  host serialises a tree as the HTML standard says for elements, text, comments and
  \<^verbatim>\<open>template\<close> elements (in an attribute value the standard escapes \<^verbatim>\<open><\<close> and \<^verbatim>\<open>>\<close>
  too; browsers older than that rule leave them), and its two parsers know the documents and
  fragments of the examples, for which they return the trees that the HTML parsing algorithm
  builds (a document has a \<^verbatim>\<open>head\<close> and a \<^verbatim>\<open>body\<close>, and an element left open is closed at
  the end of the input).
\<close>

definition voidElements :: "string list" where
  "voidElements =
     [''area'', ''base'', ''br'', ''col'', ''embed'', ''hr'', ''img'', ''input'',
      ''link'', ''meta'', ''param'', ''source'', ''track'', ''wbr'']"

definition rawTextElements :: "string list" where
  "rawTextElements =
     [''style'', ''script'', ''xmp'', ''iframe'', ''noembed'', ''noframes'', ''plaintext'']"

definition escapeTextChar :: "char \<Rightarrow> string" where
  "escapeTextChar c =
     (if c = CHR ''&'' then ''&amp;''
      else if c = CHR 0xA0 then ''&nbsp;''
      else if c = CHR ''<'' then ''&lt;''
      else if c = CHR ''>'' then ''&gt;''
      else [c])"

definition escapeAttrChar :: "char \<Rightarrow> string" where
  "escapeAttrChar c =
     (if c = CHR ''&'' then ''&amp;''
      else if c = CHR 0xA0 then ''&nbsp;''
      else if c = CHR 0x22 then ''&quot;''
      else if c = CHR ''<'' then ''&lt;''
      else if c = CHR ''>'' then ''&gt;''
      else [c])"

definition serializeAttribute :: "string \<times> string \<Rightarrow> string" where
  "serializeAttribute a =
     '' '' @ fst a @ ''='' @ [CHR 0x22] @ concat (map escapeAttrChar (snd a)) @ [CHR 0x22]"

fun serializeNode :: "string \<Rightarrow> node \<Rightarrow> string" where
  "serializeNode parent (Element tag attrs children) =
     ''<'' @ tag @ concat (map serializeAttribute attrs) @ ''>'' @
     (if tag \<in> set voidElements then []
      else concat (map (serializeNode tag) children) @ ''</'' @ tag @ ''>'')"
| "serializeNode parent (Text v) =
     (if parent \<in> set rawTextElements then v else concat (map escapeTextChar v))"
| "serializeNode parent (Comment v) = ''<!--'' @ v @ ''-->''"
| "serializeNode parent (Template attrs content) =
     ''<template'' @ concat (map serializeAttribute attrs) @ ''>'' @
     concat (map (serializeNode ''template'') content) @ ''</template>''"

definition serializeChildren :: "string \<Rightarrow> node list \<Rightarrow> string" where
  "serializeChildren tag children = concat (map (serializeNode tag) children)"

definition htmlDocument :: "node list \<Rightarrow> node" where
  "htmlDocument bodyChildren =
     Element ''html'' [] [Element ''head'' [] [], Element ''body'' [] bodyChildren]"

definition exampleDocuments :: "(string \<times> node) list" where
  "exampleDocuments =
     [(''<body><div id=\"$$$0$$$\">$$$1$$$</body>'',
         htmlDocument [Element ''div'' [(''id'', ''$$$0$$$'')] [Text ''$$$1$$$'']]),
      (''<body><div></body>'', htmlDocument [Element ''div'' [] []]),
      (''<body><p>$$$0$$$</p></body>'', htmlDocument [Element ''p'' [] [Text ''$$$0$$$'']]),
      (''<body><b>$$$0$$$</b></body>'', htmlDocument [Element ''b'' [] [Text ''$$$0$$$'']]),
      (''<body><p>a</p><p>b</p></body>'',
         htmlDocument [Element ''p'' [] [Text ''a''], Element ''p'' [] [Text ''b'']]),
      (''<body><button @click=\"$$$0$$$\"></button></body>'',
         htmlDocument [Element ''button'' [(''@click'', ''$$$0$$$'')] []]),
      (''<body><p @x=\"$$$0$$$\">$$$1$$$</p></body>'',
         htmlDocument [Element ''p'' [(''@x'', ''$$$0$$$'')] [Text ''$$$1$$$'']]),
      (''<body><a href=\"$$$0$$$\">x</a><br></body>'',
         htmlDocument [Element ''a'' [(''href'', ''$$$0$$$'')] [Text ''x''], Element ''br'' [] []]),
      (''<body>a $$$0$$$ b</body>'', htmlDocument [Text ''a $$$0$$$ b'']),
      (''<body>a $$$0$$$ b<br></body>'',
         htmlDocument [Text ''a $$$0$$$ b'', Element ''br'' [] []]),
      (''<body><xmp>$$$0$$$</xmp><!--$$$1$$$--></body>'',
         htmlDocument [Element ''xmp'' [] [Text ''$$$0$$$''], Comment ''$$$1$$$'']),
      (''<body><template><a href=\"$$$0$$$\"></a></template></body>'',
         htmlDocument [Template [] [Element ''a'' [(''href'', ''$$$0$$$'')] []]])]"

definition exampleFragments :: "(string \<times> node list) list" where
  "exampleFragments =
     [(''&lt;b&gt;'', [Text ''<b>'']),
      (''&lt;i&gt;'', [Text ''<i>'']),
      (''x'', [Text ''x'']),
      (''$$$1$$$'', [Text ''$$$1$$$'']),
      (''<b>$$$0$$$</b>'', [Element ''b'' [] [Text ''$$$0$$$'']])]"

definition exampleHost :: host where
  "exampleHost =
     \<lparr>parseFromString = (\<lambda>s. case map_of exampleDocuments s of
                                 Some doc \<Rightarrow> doc | None \<Rightarrow> htmlDocument []),
      getInnerHTML = serializeChildren,
      setInnerHTML = (\<lambda>tag s. case map_of exampleFragments s of
                                  Some fragment \<Rightarrow> fragment | None \<Rightarrow> [])\<rparr>"

text \<open>
  A sanitizer for the examples: it escapes. The examples use its identity and its function
  only.
\<close>

definition exampleSanitizer :: functionObject where
  "exampleSanitizer =
     \<lparr>objectId = 1, invoke = escapeString,
      through = (\<lambda>name. None), writable = (\<lambda>name. True)\<rparr>"

section \<open>Properties of the placeholders\<close>

lemma digitValue_digitChar: "d < 10 \<Longrightarrow> digitValue (digitChar d) = d"
proof -
  assume "d < 10"
  then have "d \<in> {0,1,2,3,4,5,6,7,8,9}" by auto
  then show ?thesis by (auto simp: digitValue_def digitChar_def)
qed

lemma isDigit_digitChar: "d < 10 \<Longrightarrow> isDigit (digitChar d)"
proof -
  assume "d < 10"
  then have "d \<in> {0,1,2,3,4,5,6,7,8,9}" by auto
  then show ?thesis by (auto simp: isDigit_def digitChar_def)
qed

lemma numberToString_digits: "c \<in> set (numberToString n) \<Longrightarrow> isDigit c"
proof (induction n rule: numberToString.induct)
  case (1 n)
  show ?case
  proof (cases "n < 10")
    case True
    with 1(2) show ?thesis by (subst (asm) numberToString.simps) (simp add: isDigit_digitChar)
  next
    case False
    with 1 show ?thesis by (subst (asm) (2) numberToString.simps) (auto simp: isDigit_digitChar)
  qed
qed

lemma numberToString_nonempty: "numberToString n \<noteq> []"
  by (subst numberToString.simps) simp

lemma Number_append: "Number (xs @ [c]) = 10 * Number xs + digitValue c"
  by (simp add: Number_def)

lemma Number_numberToString: "Number (numberToString n) = n"
proof (induction n rule: numberToString.induct)
  case (1 n)
  show ?case
  proof (cases "n < 10")
    case True
    then show ?thesis by (subst numberToString.simps) (simp add: Number_def digitValue_digitChar)
  next
    case False
    with 1 show ?thesis by (subst numberToString.simps) (simp add: Number_append digitValue_digitChar)
  qed
qed

lemma stripPrefix_append: "stripPrefix p (p @ r) = Some r"
  by (induction p) simp_all

lemma not_isDigit_dollar: "\<not> isDigit CHR ''$''"
  by (simp add: isDigit_def)

lemma matchAt_placeholder: "matchAt (placeholder k @ rest) = Some (numberToString k, rest)"
proof -
  have tw: "takeWhile isDigit (numberToString k @ ''$$$'' @ rest) = numberToString k"
    by (simp add: takeWhile_append2 numberToString_digits not_isDigit_dollar)
  have dw: "dropWhile isDigit (numberToString k @ ''$$$'' @ rest) = ''$$$'' @ rest"
    by (simp add: dropWhile_append2 numberToString_digits not_isDigit_dollar)
  have sp: "stripPrefix ''$$$'' (placeholder k @ rest) = Some (numberToString k @ ''$$$'' @ rest)"
    unfolding placeholder_def
    using stripPrefix_append [of "''$$$''" "numberToString k @ ''$$$'' @ rest"] by simp
  have sp2: "stripPrefix ''$$$'' (''$$$'' @ rest) = Some rest"
    by (rule stripPrefix_append)
  show ?thesis
    unfolding matchAt_def sp
    by (simp only: option.case tw dw sp2 Let_def numberToString_nonempty if_False)
qed

lemma matchAt_no_dollar: "c \<noteq> CHR ''$'' \<Longrightarrow> matchAt (c # cs) = None"
  by (simp add: matchAt_def)

lemma scanPlaceholders_placeholder:
  "scanPlaceholders (placeholder k @ rest) = Inr (numberToString k) # scanPlaceholders rest"
proof -
  obtain cs where c: "placeholder k @ rest = CHR ''$'' # cs"
    by (simp add: placeholder_def)
  have "matchAt (CHR ''$'' # cs) = Some (numberToString k, rest)"
    using matchAt_placeholder [of k rest] by (simp only: c)
  then have "scanPlaceholders (CHR ''$'' # cs) = Inr (numberToString k) # scanPlaceholders rest"
    by simp
  then show ?thesis by (simp only: c)
qed

lemma scanPlaceholders_plain:
  "CHR ''$'' \<notin> set pre \<Longrightarrow> scanPlaceholders (pre @ s) = map Inl pre @ scanPlaceholders s"
proof (induction pre)
  case Nil
  show ?case by simp
next
  case (Cons a pre)
  then have "a \<noteq> CHR ''$''" by auto
  then have "matchAt (a # pre @ s) = None" by (rule matchAt_no_dollar)
  with Cons show ?case by simp
qed

lemma replaceScanned_total:
  "replaceScanned (\<lambda>p. Inr (g p)) ts = Inr (concat (map (case_sum (\<lambda>c. [c]) g) ts))"
proof (induction ts)
  case Nil
  show ?case by simp
next
  case (Cons t ts)
  then show ?case by (cases t) simp_all
qed

lemma replaceRegexp_total: "replaceRegexp (\<lambda>p. Inr (g p)) s = Inr (substituted g s)"
  by (simp add: replaceRegexp_def substituted_def replaceScanned_total)


lemma scanPlaceholders_no_match:
  "firstMatch (scanPlaceholders s) = None \<Longrightarrow> scanPlaceholders s = map Inl s"
proof (induction s rule: scanPlaceholders.induct)
  case 1
  show ?case by simp
next
  case (2 c cs)
  show ?case
  proof (cases "matchAt (c # cs)")
    case None
    with 2 show ?thesis by simp
  next
    case (Some m)
    with 2(3) show ?thesis by (cases m) simp
  qed
qed

lemma substituted_no_match: "matchRegexp s = None \<Longrightarrow> substituted g s = s"
proof -
  assume "matchRegexp s = None"
  then have "firstMatch (scanPlaceholders s) = None"
    by (simp add: matchRegexp_def)
  then have "scanPlaceholders s = map Inl s"
    by (rule scanPlaceholders_no_match)
  then have "substituted g s = concat (map (\<lambda>c. [c]) s)"
    by (simp add: substituted_def comp_def)
  then show ?thesis by simp
qed

lemma replaceRegexp_no_match: "matchRegexp s = None \<Longrightarrow> replaceRegexp f s = Inr s"
proof -
  assume "matchRegexp s = None"
  then have "firstMatch (scanPlaceholders s) = None"
    by (simp add: matchRegexp_def)
  then have m: "scanPlaceholders s = map Inl s"
    by (rule scanPlaceholders_no_match)
  have "replaceScanned f (map Inl r) = Inr r" for r
    by (induction r) simp_all
  then show ?thesis
    by (simp add: replaceRegexp_def m)
qed

lemma replaceScanned_plain:
  "replaceScanned f (map Inl pre @ ts) =
     (case replaceScanned f ts of Inl e \<Rightarrow> Inl e | Inr r \<Rightarrow> Inr (pre @ r))"
  by (induction pre) (simp_all split: sum.splits)

lemma replaceRegexp_placeholder:
  "CHR ''$'' \<notin> set pre \<Longrightarrow>
   replaceRegexp f (pre @ placeholder k @ post) =
     (case f (numberToString k) of
        Inl e \<Rightarrow> Inl e
      | Inr v \<Rightarrow>
          (case replaceRegexp f post of Inl e \<Rightarrow> Inl e | Inr r \<Rightarrow> Inr (pre @ v @ r)))"
  by (simp add: replaceRegexp_def scanPlaceholders_plain scanPlaceholders_placeholder
      replaceScanned_plain split: sum.splits)

lemma expressionResultString_numberToString:
  "expressionResultString rs (numberToString k) = toStringJS (getResult rs k)"
  by (simp add: expressionResultString_def replaceWithExpressionResult_def Number_numberToString)

lemma processNode_Text:
  "processNode h rs (Text v) =
     (case replaceRegexp (expressionResultString rs) v of
        Inl e \<Rightarrow> Inl e
      | Inr s \<Rightarrow> Inr (Text s))"
  by (simp add: processNode.simps replaceRegexp_no_match)

lemma processNode_legacy_Text:
  "processNode_legacy h rs (Text v) = processNode h rs (Text v)"
  by (simp add: processNode.simps processNode_legacy.simps)

lemma matchRegexp_placeholder: "matchRegexp (placeholder k) = Some (numberToString k)"
  using scanPlaceholders_placeholder [of k "[]"] by (simp add: matchRegexp_def)



section \<open>Properties of escape\<close>

lemma replaceAllChar_Nil: "replaceAllChar c r [] = []"
  by (simp add: replaceAllChar_def)

lemma replaceAllChar_Cons:
  "replaceAllChar c r (x # xs) = (if x = c then r else [x]) @ replaceAllChar c r xs"
  by (simp add: replaceAllChar_def)

lemma replaceAllChar_append:
  "replaceAllChar c r (xs @ ys) = replaceAllChar c r xs @ replaceAllChar c r ys"
  by (simp add: replaceAllChar_def)

lemma escapeString_Nil: "escapeString [] = []"
  by (simp add: escapeString_def replaceAllChar_Nil)

lemma escapeString_Cons: "escapeString (x # xs) = escapeChar x @ escapeString xs"
  by (simp add: escapeString_def escapeChar_def replaceAllChar_Cons replaceAllChar_append
      replaceAllChar_Nil)

lemma escapeString_single_pass: "escapeString s = concat (map escapeChar s)"
  by (induction s) (simp_all add: escapeString_Nil escapeString_Cons)

lemma decodeEntity_escapeChar:
  "c \<in> set specialChars \<Longrightarrow> decodeEntity (escapeChar c @ r) = Some (c, r)"
  by (auto simp: specialChars_def escapeChar_def decodeEntity_def)

lemma decodeEntity_plain: "c \<noteq> CHR ''&'' \<Longrightarrow> decodeEntity (c # r) = None"
  by (simp add: decodeEntity_def)

lemma escapeChar_plain: "c \<notin> set specialChars \<Longrightarrow> escapeChar c = [c]"
  by (simp add: specialChars_def escapeChar_def)

lemma escapeChar_nonempty: "c \<in> set specialChars \<Longrightarrow> \<exists>y ys. escapeChar c = y # ys"
  by (auto simp: specialChars_def escapeChar_def)

lemma decodeEscaped_escapeChar:
  "decodeEscaped (escapeChar c @ r) = map_option ((#) c) (decodeEscaped r)"
proof (cases "c \<in> set specialChars")
  case True
  then obtain y ys where e: "escapeChar c = y # ys"
    using escapeChar_nonempty by blast
  have "decodeEntity ((y # ys) @ r) = Some (c, r)"
    using decodeEntity_escapeChar [OF True, of r] by (simp add: e)
  then show ?thesis by (simp add: e)
next
  case False
  then have "c \<noteq> CHR ''&''" by (auto simp: specialChars_def)
  then show ?thesis using False by (simp add: escapeChar_plain decodeEntity_plain)
qed

lemma decodeEscaped_escapeString: "decodeEscaped (escapeString s) = Some s"
  by (induction s) (simp_all add: escapeString_Nil escapeString_Cons decodeEscaped_escapeChar)

lemma escapeChar_no_markup:
  "set (escapeChar c) \<inter> {CHR ''<'', CHR ''>'', CHR 0x22, CHR 0x27, CHR 0x00} = {}"
  by (simp add: escapeChar_def)

lemma escapeString_no_markup:
  "set (escapeString s) \<inter> {CHR ''<'', CHR ''>'', CHR 0x22, CHR 0x27, CHR 0x00} = {}"
proof (induction s)
  case Nil
  show ?case by (simp add: escapeString_Nil)
next
  case (Cons x xs)
  then show ?case
    using escapeChar_no_markup [of x] by (simp add: escapeString_Cons Int_Un_distrib2)
qed

text \<open>
  The order of the six replacements matters: with the ampersand replaced last, the
  ampersands that the earlier replacements wrote would be escaped again.
\<close>

lemma ampersand_last_escapes_twice:
  "replaceAllChar CHR ''&'' ''&amp;'' (replaceAllChar CHR ''<'' ''&lt;'' ''<'') = ''&amp;lt;''
   \<and> escapeString ''<'' = ''&lt;''"
  by (simp add: escapeString_def replaceAllChar_def)

text \<open>
  Claim C6. \<open>escape\<close> is a total function. For every string \<open>s\<close>, the six replacements applied
  one after the other with the ampersand first give, character by character, the escape
  sequence of each of the six characters and every other character unchanged; the decoder of
  the six sequences, which fails at a literal \<^verbatim>\<open>&\<close>, \<^verbatim>\<open><\<close>, \<^verbatim>\<open>>\<close>, quote or NUL outside a
  sequence, accepts the text of \<open>escape s\<close> and recovers \<open>s\<close>; and none of \<^verbatim>\<open><\<close>, \<^verbatim>\<open>>\<close>,
  the two quotes and NUL occurs in that text at all.
\<close>

theorem escape_roundtrip:
  "toString (escape s) = concat (map escapeChar s)
   \<and> decodeEscaped (toString (escape s)) = Some s
   \<and> set (toString (escape s)) \<inter> {CHR ''<'', CHR ''>'', CHR 0x22, CHR 0x27, CHR 0x00} = {}"
  using escapeString_single_pass [of s] decodeEscaped_escapeString [of s]
    escapeString_no_markup [of s]
  by (simp add: escape_def toString_def)

theorem escape_roundtrip_witness:
  "toString (escape ''<a href=x>&amp;'') = ''&lt;a href=x&gt;&amp;amp;''
   \<and> decodeEscaped ''&lt;a href=x&gt;&amp;amp;'' = Some ''<a href=x>&amp;''"
proof -
  have e: "concat (map escapeChar ''<a href=x>&amp;'') = ''&lt;a href=x&gt;&amp;amp;''"
    by (simp add: escapeChar_def)
  have r: "toString (escape ''<a href=x>&amp;'') = concat (map escapeChar ''<a href=x>&amp;'')"
    and d: "decodeEscaped (toString (escape ''<a href=x>&amp;'')) = Some ''<a href=x>&amp;''"
    using escape_roundtrip [of "''<a href=x>&amp;''"] by blast+
  from d have "decodeEscaped ''&lt;a href=x&gt;&amp;amp;'' = Some ''<a href=x>&amp;''"
    by (simp only: r e)
  with r e show ?thesis by (simp only: simp_thms)
qed

section \<open>Properties of the configuration\<close>

text \<open>
  Claim C4. For every string \<open>s\<close>, \<open>unsafelyCreate\<close> fails with \<open>GateClosedError\<close> whenever
  \<^verbatim>\<open>allowUnsafelyCreate\<close> is false, and when it is true it returns an instance whose
  \<open>toString\<close> is \<open>s\<close>; it returns an instance exactly when the switch is true.
\<close>

theorem unsafelyCreate_gate:
  "(\<not> get_allowUnsafelyCreate c \<longrightarrow> unsafelyCreate c s = Inl GateClosedError)
   \<and> (get_allowUnsafelyCreate c \<longrightarrow>
        (\<exists>t. unsafelyCreate c s = Inr t \<and> toString t = s))
   \<and> ((\<exists>t. unsafelyCreate c s = Inr t) \<longleftrightarrow> get_allowUnsafelyCreate c)"
  by (simp add: unsafelyCreate_def get_allowUnsafelyCreate_def toString_def)

theorem unsafelyCreate_gate_witness:
  "unsafelyCreate (snd (set_allowUnsafelyCreate initialConfig False)) ''<b>x</b>''
     = Inl GateClosedError
   \<and> (\<exists>t. unsafelyCreate (snd (set_allowUnsafelyCreate initialConfig True)) ''<b>x</b>'' = Inr t
          \<and> toString t = ''<b>x</b>'')"
  using unsafelyCreate_gate [of "snd (set_allowUnsafelyCreate initialConfig False)" "''<b>x</b>''"]
    unsafelyCreate_gate [of "snd (set_allowUnsafelyCreate initialConfig True)" "''<b>x</b>''"]
  by (simp add: set_allowUnsafelyCreate_def initialConfig_def get_allowUnsafelyCreate_def)

text \<open>The older revision has no switch to close.\<close>

lemma unsafelyCreate_legacy_always: "toString (unsafelyCreate_legacy s) = s"
  by (simp add: unsafelyCreate_legacy_def toString_def)

text \<open>
  Claim C10. In the configuration of the freshly loaded module the getter of
  \<^verbatim>\<open>allowUnsafelyCreate\<close> returns true, and for every string \<open>s\<close> \<open>unsafelyCreate\<close> returns an
  instance whose \<open>toString\<close> is \<open>s\<close>.
\<close>

theorem initial_gate_open:
  "get_allowUnsafelyCreate initialConfig
   \<and> unsafelyCreate initialConfig s = Inr (TrustedHTML s)
   \<and> toString (TrustedHTML s) = s"
  by (simp add: unsafelyCreate_def get_allowUnsafelyCreate_def toString_def initialConfig_def)


subsection \<open>The frozen configuration\<close>

lemma frozen_is_fixpoint:
  "sanitizersFrozen c \<Longrightarrow> allowUnsafelyCreateFrozen c \<Longrightarrow> freezeConfiguration c = c"
  by (simp add: freezeConfiguration_def)

text \<open>
  Assigning to \<^verbatim>\<open>__proto__\<close> of a frozen object the prototype that the object has
  already is no change, and the assignment returns: after a function was registered under
  that name, the same call returns again when the configuration is frozen.
\<close>

theorem frozen_configuration_counterexample:
  "registerSanitizer
     (freezeConfiguration (snd (registerSanitizer initialConfig exampleSanitizer (Some ''__proto__''))))
     exampleSanitizer (Some ''__proto__'')
   = (Inr (),
      freezeConfiguration (snd (registerSanitizer initialConfig exampleSanitizer (Some ''__proto__''))))"
  by (simp add: registerSanitizer_def freezeConfiguration_def initialConfig_def isPrototype_def)

text \<open>
  Claim C5, as amended. After \<^verbatim>\<open>freezeConfiguration\<close>, whatever the configuration was
  before:
  \<^item> no call of \<^verbatim>\<open>registerSanitizer\<close> changes the configuration;
  \<^item> \<^verbatim>\<open>registerSanitizer\<close> fails with \<open>RegistryFrozenError\<close> for every function and
    every id, with one exception: the id is \<^verbatim>\<open>__proto__\<close>, \<^verbatim>\<open>sanitizers_\<close> has no own
    property of that name, and the function is the prototype of \<^verbatim>\<open>sanitizers_\<close>
    already; that call returns;
  \<^item> every assignment to \<^verbatim>\<open>allowUnsafelyCreate\<close> fails with \<open>RegistryFrozenError\<close> and
    changes nothing;
  \<^item> \<^verbatim>\<open>freezeConfiguration\<close> called again returns and changes nothing.
\<close>

theorem frozen_configuration:
  "snd (registerSanitizer (freezeConfiguration c) f optId) = freezeConfiguration c
   \<and> fst (registerSanitizer (freezeConfiguration c) f optId)
       = (if optId = Some ''__proto__'' \<and> sanitizers c ''__proto__'' = None \<and> isPrototype c f
          then Inr () else Inl RegistryFrozenError)
   \<and> set_allowUnsafelyCreate (freezeConfiguration c) v
       = (Inl RegistryFrozenError, freezeConfiguration c)
   \<and> freezeConfiguration (freezeConfiguration c) = freezeConfiguration c"
  by (cases optId)
    (auto simp: registerSanitizer_def set_allowUnsafelyCreate_def freezeConfiguration_def
      isPrototype_def DEFAULT_SANITIZER_def)

theorem frozen_configuration_witness:
  "registerSanitizer (freezeConfiguration initialConfig) exampleSanitizer (Some ''strict'')
     = (Inl RegistryFrozenError, freezeConfiguration initialConfig)
   \<and> registerSanitizer (freezeConfiguration initialConfig) exampleSanitizer (Some ''__proto__'')
     = (Inl RegistryFrozenError, freezeConfiguration initialConfig)
   \<and> set_allowUnsafelyCreate (freezeConfiguration initialConfig) False
     = (Inl RegistryFrozenError, freezeConfiguration initialConfig)
   \<and> get_allowUnsafelyCreate (freezeConfiguration initialConfig)"
proof -
  have s: "sanitizers initialConfig ''__proto__'' = None"
    and p: "\<not> isPrototype initialConfig exampleSanitizer"
    by (simp_all add: initialConfig_def isPrototype_def)
  have g: "get_allowUnsafelyCreate (freezeConfiguration initialConfig)"
    by (simp add: get_allowUnsafelyCreate_def freezeConfiguration_def initialConfig_def)
  from frozen_configuration [of initialConfig exampleSanitizer "Some ''strict''" False]
  have 1: "registerSanitizer (freezeConfiguration initialConfig) exampleSanitizer (Some ''strict'')
     = (Inl RegistryFrozenError, freezeConfiguration initialConfig)"
    and 3: "set_allowUnsafelyCreate (freezeConfiguration initialConfig) False
     = (Inl RegistryFrozenError, freezeConfiguration initialConfig)"
    by (simp_all add: prod_eq_iff)
  from frozen_configuration [of initialConfig exampleSanitizer "Some ''__proto__''" False] p
  have 2: "registerSanitizer (freezeConfiguration initialConfig) exampleSanitizer (Some ''__proto__'')
     = (Inl RegistryFrozenError, freezeConfiguration initialConfig)"
    by (simp add: prod_eq_iff)
  from 1 2 3 g show ?thesis by simp
qed

text \<open>
  Claim C7 asks for \<open>UnknownSanitizerError\<close> whenever the name is not registered. The test
  \<^verbatim>\<open>!sanitizers_[optSanitizerId]\<close> also finds what \<^verbatim>\<open>sanitizers_\<close> inherits from
  \<^verbatim>\<open>Object.prototype\<close>: with nothing registered, the name \<^verbatim>\<open>constructor\<close> is accepted, the
  function called is \<^verbatim>\<open>Object\<close>, and the instance returned holds the input as it was given.
\<close>

theorem sanitize_inherited_constructor:
  "sanitize initialConfig ''<img src=x onerror=alert(1)>'' (Some ''constructor'')
     = Inr (TrustedHTML ''<img src=x onerror=alert(1)>'')"
  by (simp add: sanitize_def getSanitizer_def initialConfig_def objectPrototypeNames_def
      callInherited_def)

text \<open>
  For a name that is registered, and for a name that is neither registered nor a property
  of \<^verbatim>\<open>Object.prototype\<close>, \<open>sanitize\<close> does what the claim says; a missing name stands for
  \<^verbatim>\<open>default\<close>.
\<close>

lemma sanitize_registered:
  "sanitizers c i = Some f \<Longrightarrow> sanitize c s (Some i) = Inr (TrustedHTML (invoke f s))"
  by (simp add: sanitize_def getSanitizer_def)

lemma sanitize_default: "sanitize c s None = sanitize c s (Some ''default'')"
  by (simp add: sanitize_def DEFAULT_SANITIZER_def)

lemma sanitize_unknown:
  "sanitizers c i = None \<Longrightarrow> sanitizersPrototype c = None \<Longrightarrow>
   i \<notin> set objectPrototypeNames \<Longrightarrow>
   sanitize c s (Some i) = Inl (UnknownSanitizerError i)"
  by (simp add: sanitize_def getSanitizer_def)

lemma sanitize_inherited_not_rejected:
  "sanitizers c i = None \<Longrightarrow> sanitizersPrototype c = None \<Longrightarrow>
   i \<in> set objectPrototypeNames \<Longrightarrow>
   sanitize c s (Some i) \<noteq> Inl (UnknownSanitizerError i)"
  by (auto simp: sanitize_def getSanitizer_def callInherited_def split: sum.splits if_splits)

section \<open>Properties of processNode: attributes\<close>

lemma map_of_storeAttribute:
  "map_of (storeAttribute attrs name v) n = (if n = name then Some v else map_of attrs n)"
  by (induction attrs) auto

lemma names_storeAttribute:
  "map_of attrs name = Some w \<Longrightarrow> map fst (storeAttribute attrs name v) = map fst attrs"
  by (induction attrs) (auto split: if_splits)

lemma map_of_setAttrValue:
  "map_of attrs name = Some w \<Longrightarrow>
   map_of (setAttrValue attrs name v) n = (if n = name then Some v else map_of attrs n)"
  by (induction attrs) (auto split: if_splits)

lemma names_setAttrValue: "map fst (setAttrValue attrs name v) = map fst attrs"
  by (induction attrs) auto

text \<open>One turn of the loop over the attributes, in each revision.\<close>

lemma forEachAttribute_step:
  assumes "forEachAttribute rs (name # names) attrs = Inr attrs'"
  shows "\<exists>attrs1. forEachAttribute rs names attrs1 = Inr attrs'
    \<and> map fst attrs1 = map fst attrs
    \<and> (\<forall>n. n \<noteq> name \<longrightarrow> map_of attrs1 n = map_of attrs n)
    \<and> (\<forall>v p. map_of attrs name = Some v \<longrightarrow> matchRegexp v = Some p \<longrightarrow>
           matchesName name
           \<and> (\<exists>s. toStringJS (getResult rs (Number p)) = Inr s \<and> map_of attrs1 name = Some s))"
proof (cases "map_of attrs name")
  case None
  with assms show ?thesis by auto
next
  case (Some v)
  show ?thesis
  proof (cases "matchRegexp v")
    case None
    with Some assms show ?thesis by auto
  next
    case (Some p)
    with \<open>map_of attrs name = Some v\<close> assms
    obtain s where s: "toStringJS (getResult rs (Number p)) = Inr s"
      and m: "matchesName name"
      and r: "forEachAttribute rs names (storeAttribute attrs name s) = Inr attrs'"
      by (auto simp: setAttribute_def split: sum.splits if_splits)
    show ?thesis
      using s m r Some \<open>map_of attrs name = Some v\<close>
      by (intro exI [of _ "storeAttribute attrs name s"])
        (simp add: map_of_storeAttribute names_storeAttribute)
  qed
qed

lemma forEachAttribute_names:
  "forEachAttribute rs names attrs = Inr attrs' \<Longrightarrow> map fst attrs' = map fst attrs"
proof (induction names arbitrary: attrs)
  case Nil
  then show ?case by simp
next
  case (Cons name names)
  from forEachAttribute_step [OF Cons.prems]
  obtain attrs1 where "forEachAttribute rs names attrs1 = Inr attrs'"
    and "map fst attrs1 = map fst attrs"
    by blast
  with Cons.IH show ?case by simp
qed

lemma forEachAttribute_other:
  "forEachAttribute rs names attrs = Inr attrs' \<Longrightarrow> n \<notin> set names \<Longrightarrow>
   map_of attrs' n = map_of attrs n"
proof (induction names arbitrary: attrs)
  case Nil
  then show ?case by simp
next
  case (Cons name names)
  from forEachAttribute_step [OF Cons.prems(1)]
  obtain attrs1 where 1: "forEachAttribute rs names attrs1 = Inr attrs'"
    and 2: "\<And>n. n \<noteq> name \<Longrightarrow> map_of attrs1 n = map_of attrs n"
    by blast
  from Cons.prems(2) have "n \<noteq> name" "n \<notin> set names" by auto
  with Cons.IH [OF 1] 2 show ?case by simp
qed

lemma forEachAttribute_replaced:
  "forEachAttribute rs names attrs = Inr attrs' \<Longrightarrow> distinct names \<Longrightarrow> n \<in> set names \<Longrightarrow>
   map_of attrs n = Some v \<Longrightarrow> matchRegexp v = Some p \<Longrightarrow>
   matchesName n \<and> (\<exists>s. toStringJS (getResult rs (Number p)) = Inr s \<and> map_of attrs' n = Some s)"
proof (induction names arbitrary: attrs)
  case Nil
  then show ?case by simp
next
  case (Cons name names)
  from forEachAttribute_step [OF Cons.prems(1)]
  obtain attrs1 where 1: "forEachAttribute rs names attrs1 = Inr attrs'"
    and 2: "\<And>n. n \<noteq> name \<Longrightarrow> map_of attrs1 n = map_of attrs n"
    and 3: "\<And>v p. map_of attrs name = Some v \<Longrightarrow> matchRegexp v = Some p \<Longrightarrow>
           matchesName name
           \<and> (\<exists>s. toStringJS (getResult rs (Number p)) = Inr s \<and> map_of attrs1 name = Some s)"
    by blast
  from Cons.prems(2) have d: "distinct names" and nin: "name \<notin> set names" by auto
  show ?case
  proof (cases "n = name")
    case True
    with 3 Cons.prems(4,5) forEachAttribute_other [OF 1 nin] show ?thesis by auto
  next
    case False
    with Cons.prems(3) have "n \<in> set names" by simp
    moreover from False 2 Cons.prems(4) have "map_of attrs1 n = Some v" by simp
    ultimately show ?thesis
      using Cons.IH [OF 1 d] Cons.prems(5) by blast
  qed
qed

lemma forEachAttribute_succeeds:
  "distinct names \<Longrightarrow>
   (\<And>n v p. n \<in> set names \<Longrightarrow> map_of attrs n = Some v \<Longrightarrow> matchRegexp v = Some p \<Longrightarrow>
      matchesName n \<and> (\<exists>s. toStringJS (getResult rs (Number p)) = Inr s)) \<Longrightarrow>
   \<exists>attrs'. forEachAttribute rs names attrs = Inr attrs'"
proof (induction names arbitrary: attrs)
  case Nil
  then show ?case by simp
next
  case (Cons name names)
  from Cons.prems(1) have d: "distinct names" and nin: "name \<notin> set names" by auto
  let ?step = "case map_of attrs name of
              None \<Rightarrow> Inr attrs
            | Some v \<Rightarrow>
                (case matchRegexp v of
                   None \<Rightarrow> Inr attrs
                 | Some partId \<Rightarrow> setAttribute attrs name (getResult rs (Number partId)))"
  have "\<exists>attrs1. ?step = Inr attrs1 \<and> (\<forall>n. n \<noteq> name \<longrightarrow> map_of attrs1 n = map_of attrs n)"
  proof (cases "map_of attrs name")
    case None
    then show ?thesis by simp
  next
    case (Some v)
    show ?thesis
    proof (cases "matchRegexp v")
      case None
      with Some show ?thesis by simp
    next
      case (Some p)
      from Cons.prems(2) [of name v p] Some \<open>map_of attrs name = Some v\<close>
      obtain s where "matchesName name" and "toStringJS (getResult rs (Number p)) = Inr s"
        by auto
      with Some \<open>map_of attrs name = Some v\<close> show ?thesis
        by (simp add: setAttribute_def map_of_storeAttribute)
    qed
  qed
  then obtain attrs1 where 1: "?step = Inr attrs1"
    and 2: "\<And>n. n \<noteq> name \<Longrightarrow> map_of attrs1 n = map_of attrs n"
    by blast
  have "\<exists>attrs'. forEachAttribute rs names attrs1 = Inr attrs'"
  proof (rule Cons.IH [OF d])
    fix n v p
    assume a: "n \<in> set names" "map_of attrs1 n = Some v" "matchRegexp v = Some p"
    with nin have "n \<noteq> name" by auto
    with 2 a(2) have "map_of attrs n = Some v" by simp
    with Cons.prems(2) [of n v p] a show
      "matchesName n \<and> (\<exists>s. toStringJS (getResult rs (Number p)) = Inr s)" by simp
  qed
  with 1 show ?case by simp
qed

lemma forEachAttribute_unchanged:
  "\<forall>a \<in> set attrs. matchRegexp (snd a) = None \<Longrightarrow> forEachAttribute rs names attrs = Inr attrs"
proof (induction names)
  case Nil
  show ?case by simp
next
  case (Cons name names)
  have "\<And>v. map_of attrs name = Some v \<Longrightarrow> matchRegexp v = None"
  proof -
    fix v
    assume "map_of attrs name = Some v"
    then have "(name, v) \<in> set attrs" by (rule map_of_SomeD)
    with Cons.prems show "matchRegexp v = None" by force
  qed
  then show ?case
    using Cons by (auto split: option.splits)
qed

lemma processAttributes_unchanged:
  "\<forall>a \<in> set attrs. matchRegexp (snd a) = None \<Longrightarrow> processAttributes rs attrs = Inr attrs"
  by (simp add: processAttributes_def forEachAttribute_unchanged)

lemma processAttributes_Nil: "processAttributes rs [] = Inr []"
  by (simp add: processAttributes_def)

lemma processAttributes_placeholder:
  assumes "processAttributes rs attrs = Inr attrs'"
    and "distinct (map fst attrs)" and "(name, placeholder k) \<in> set attrs"
  shows "matchesName name
    \<and> (\<exists>s. toStringJS (getResult rs k) = Inr s \<and> map_of attrs' name = Some s)
    \<and> map fst attrs' = map fst attrs"
proof -
  have m: "map_of attrs name = Some (placeholder k)"
    using assms(2,3) by simp
  have n: "name \<in> set (map fst attrs)"
    using assms(3) by force
  from forEachAttribute_replaced [OF assms(1) [unfolded processAttributes_def] assms(2) n m
      matchRegexp_placeholder]
    forEachAttribute_names [OF assms(1) [unfolded processAttributes_def]]
  show ?thesis by (simp add: Number_numberToString)
qed

lemma processAttributes_succeeds:
  assumes "distinct (map fst attrs)"
    and "\<forall>a \<in> set attrs. \<forall>p. matchRegexp (snd a) = Some p \<longrightarrow>
           matchesName (fst a) \<and> (\<exists>s. toStringJS (getResult rs (Number p)) = Inr s)"
  shows "\<exists>attrs'. processAttributes rs attrs = Inr attrs'"
  unfolding processAttributes_def
proof (rule forEachAttribute_succeeds [OF assms(1)])
  fix n v p
  assume "n \<in> set (map fst attrs)" and m: "map_of attrs n = Some v" and r: "matchRegexp v = Some p"
  from m have "(n, v) \<in> set attrs" by (rule map_of_SomeD)
  with assms(2) r show "matchesName n \<and> (\<exists>s. toStringJS (getResult rs (Number p)) = Inr s)"
    by force
qed

section \<open>Properties of processNode: elements\<close>

lemma toString_TrustedHTML: "toString (TrustedHTML s) = s"
  by (simp add: toString_def)

lemma isLeafElementNode_Element:
  "isLeafElementNode (Element tag attrs children)
     = (length children = 1 \<and> (case children ! 0 of Text v \<Rightarrow> True | _ \<Rightarrow> False))"
  by (simp add: isLeafElementNode_def)


lemma processNode_Element:
  "processNode h rs (Element tag attrs children) =
     (case processAttributes rs attrs of
        Inl e \<Rightarrow> Inl e
      | Inr attrs' \<Rightarrow>
          if isLeafElementNode (Element tag attrs children)
             \<and> matchRegexp (getInnerHTML h tag children) \<noteq> None
          then (case replaceRegexp (requireTrustedHTML rs) (getInnerHTML h tag children) of
                  Inl e \<Rightarrow> Inl e
                | Inr s \<Rightarrow> Inr (Element tag attrs' (setInnerHTML h tag s)))
          else Inr (Element tag attrs' children))"
  by (simp add: processNode.simps toString_TrustedHTML isLeafElementNode_Element
      split: sum.splits)

lemma processNode_legacy_Element:
  "processNode_legacy h rs (Element tag attrs children) =
     (case processAttributes_legacy rs attrs of
        Inl e \<Rightarrow> Inl e
      | Inr attrs' \<Rightarrow>
          if isLeafElementNode (Element tag attrs children)
             \<and> matchRegexp (getInnerHTML h tag children) \<noteq> None
          then (case replaceRegexp (requireTrustedHTML rs) (getInnerHTML h tag children) of
                  Inl e \<Rightarrow> Inl e
                | Inr s \<Rightarrow> Inr (Element tag attrs' (setInnerHTML h tag s)))
          else Inr (Element tag attrs' children))"
  by (simp add: processNode_legacy.simps toString_TrustedHTML isLeafElementNode_Element
      split: sum.splits)

lemma processNode_not_leaf:
  "\<not> isLeafElementNode (Element tag attrs children) \<Longrightarrow>
   processNode h rs (Element tag attrs children) =
     (case processAttributes rs attrs of
        Inl e \<Rightarrow> Inl e
      | Inr attrs' \<Rightarrow> Inr (Element tag attrs' children))"
  by (simp add: processNode_Element split: sum.splits)

text \<open>\<open>processNode\<close> keeps the kind of a node, and the tag of an element.\<close>

lemma processNode_kind:
  assumes "processNode h rs n = Inr n'"
  shows "(case n of
            Element tag attrs children \<Rightarrow> \<exists>attrs' children'. n' = Element tag attrs' children'
          | Text v \<Rightarrow> \<exists>s. n' = Text s
          | Comment v \<Rightarrow> n' = Comment v
          | Template attrs content \<Rightarrow> \<exists>attrs'. n' = Template attrs' content)"
  using assms
  by (cases n) (auto simp: processNode_Element processNode_Text processNode.simps
      split: sum.splits if_splits)

section \<open>Properties of the traversal\<close>

lemma processTree_Suc:
  "processTree h rs (Suc fuel) n =
     (case processNode h rs n of
        Inl e \<Rightarrow> Some (Inl e)
      | Inr (Element tag attrs children) \<Rightarrow>
          (case processChildren h rs fuel children of
             None \<Rightarrow> None
           | Some (Inl e) \<Rightarrow> Some (Inl e)
           | Some (Inr children') \<Rightarrow> Some (Inr (Element tag attrs children')))
      | Inr n' \<Rightarrow> Some (Inr n'))"
  by (simp split: sum.splits node.splits)

lemma processTree_Element:
  assumes "processTree h rs fuel (Element tag attrs children) = Some (Inr result)"
  shows "\<exists>f attrs' cs cs'. fuel = Suc f
      \<and> processNode h rs (Element tag attrs children) = Inr (Element tag attrs' cs)
      \<and> processChildren h rs f cs = Some (Inr cs')
      \<and> result = Element tag attrs' cs'"
proof (cases fuel)
  case 0
  with assms show ?thesis by simp
next
  case (Suc f)
  from assms Suc obtain n' where n: "processNode h rs (Element tag attrs children) = Inr n'"
    by (auto split: sum.splits)
  from processNode_kind [OF n] obtain attrs' cs where n': "n' = Element tag attrs' cs"
    by auto
  from assms Suc n n' show ?thesis
    by (auto split: option.splits sum.splits)
qed

lemma processTree_Text:
  "processTree h rs fuel (Text v) = Some (Inr n) \<Longrightarrow>
   \<exists>s. replaceRegexp (expressionResultString rs) v = Inr s \<and> n = Text s"
  by (cases fuel) (auto simp: processNode_Text split: sum.splits)

lemma processChildren_nth:
  "processChildren h rs fuel cs = Some (Inr cs') \<Longrightarrow>
   length cs' = length cs \<and> (\<forall>i < length cs. processTree h rs fuel (cs ! i) = Some (Inr (cs' ! i)))"
proof (induction cs arbitrary: cs')
  case Nil
  then show ?case by simp
next
  case (Cons c cs)
  from Cons.prems obtain c' cs'' where
    c: "processTree h rs fuel c = Some (Inr c')"
    and r: "processChildren h rs fuel cs = Some (Inr cs'')"
    and e: "cs' = c' # cs''"
    by (auto split: option.splits sum.splits)
  from Cons.IH [OF r] c e show ?case
    by (auto simp: nth_Cons split: nat.splits)
qed

lemma processChildren_unchanged:
  "\<forall>c \<in> set cs. processTree h rs fuel c = Some (Inr c) \<Longrightarrow>
   processChildren h rs fuel cs = Some (Inr cs)"
  by (induction cs) simp_all


text \<open>More fuel changes no outcome.\<close>

lemma fuel_mono_both:
  "(processTree h rs fuel n = Some r \<longrightarrow> processTree h rs (fuel + k) n = Some r)
   \<and> (processChildren h rs fuel cs = Some q \<longrightarrow> processChildren h rs (fuel + k) cs = Some q)"
proof (induction fuel arbitrary: n r cs q)
  case 0
  have "processChildren h rs 0 cs = Some q \<longrightarrow> processChildren h rs (0 + k) cs = Some q"
    by (induction cs arbitrary: q) (auto split: option.splits sum.splits)
  then show ?case by simp
next
  case (Suc fuel)
  have t: "processTree h rs (Suc fuel) n = Some r \<longrightarrow> processTree h rs (Suc fuel + k) n = Some r"
    for n r
    using Suc [of n _ _ _]
    by (auto simp: processTree_Suc split: sum.splits node.splits option.splits)
  have "processChildren h rs (Suc fuel) cs = Some q \<longrightarrow> processChildren h rs (Suc fuel + k) cs = Some q"
  proof (induction cs arbitrary: q)
    case Nil
    show ?case by simp
  next
    case (Cons c cs)
    show ?case
      using t [of c] Cons
      by (auto split: option.splits sum.splits)
  qed
  with t show ?case by blast
qed


lemma processChildren_mono:
  "processChildren h rs fuel cs = Some q \<Longrightarrow> fuel \<le> fuel' \<Longrightarrow>
   processChildren h rs fuel' cs = Some q"
  using fuel_mono_both [of h rs fuel _ _ "fuel' - fuel" cs q] by simp

section \<open>Nodes of the parsed tree in the traversal\<close>

lemma nodeAt_append:
  "nodeAt n (p @ q) = (case nodeAt n p of None \<Rightarrow> None | Some m \<Rightarrow> nodeAt m q)"
  by (induction n p rule: nodeAt.induct) simp_all

text \<open>
  A node above an element is no leaf element: its child on the path is an element.
\<close>

lemma nodeAt_Element_child:
  "nodeAt c q = Some (Element tag attrs children) \<Longrightarrow> \<exists>t a cs. c = Element t a cs"
  by (cases c; cases q) simp_all

lemma not_leaf_above:
  assumes "i < length cs" and "cs ! i = Element t a cs'"
  shows "\<not> isLeafElementNode (Element tag attrs cs)"
proof
  assume "isLeafElementNode (Element tag attrs cs)"
  then have "length cs = 1" and "case cs ! 0 of Text v \<Rightarrow> True | _ \<Rightarrow> False"
    by (simp_all add: isLeafElementNode_Element)
  with assms show False by simp
qed

text \<open>
  The traversal reaches an element of the parsed tree as the parser made it: when the traversal
  of the tree has returned a tree, the node at the same path of that tree is what the
  traversal of the element has returned.
\<close>

lemma processTree_nodeAt:
  "processTree h rs fuel n = Some (Inr n') \<Longrightarrow>
   nodeAt n path = Some (Element tag attrs children) \<Longrightarrow>
   \<exists>f m'. f \<le> fuel \<and> processTree h rs f (Element tag attrs children) = Some (Inr m')
     \<and> nodeAt n' path = Some m'"
proof (induction path arbitrary: n n' fuel)
  case Nil
  then show ?case by auto
next
  case (Cons i path)
  from Cons.prems(2) obtain t a cs where n: "n = Element t a cs"
    and i: "i < length cs" and c: "nodeAt (cs ! i) path = Some (Element tag attrs children)"
    by (cases n) (auto split: if_splits)
  from nodeAt_Element_child [OF c] obtain t1 a1 cs1 where e: "cs ! i = Element t1 a1 cs1"
    by blast
  have nl: "\<not> isLeafElementNode (Element t a cs)"
    using i e by (rule not_leaf_above)
  from processTree_Element [OF Cons.prems(1) [unfolded n]]
  obtain f a' cs0 cs' where f: "fuel = Suc f"
    and p: "processNode h rs (Element t a cs) = Inr (Element t a' cs0)"
    and ch: "processChildren h rs f cs0 = Some (Inr cs')"
    and n': "n' = Element t a' cs'"
    by blast
  from p nl have "cs0 = cs"
    by (auto simp: processNode_not_leaf split: sum.splits)
  with ch have ch': "processChildren h rs f cs = Some (Inr cs')" by simp
  from processChildren_nth [OF ch'] i have l: "length cs' = length cs"
    and ci: "processTree h rs f (cs ! i) = Some (Inr (cs' ! i))"
    by auto
  from Cons.IH [OF ci c] obtain f' m' where "f' \<le> f"
    and "processTree h rs f' (Element tag attrs children) = Some (Inr m')"
    and "nodeAt (cs' ! i) path = Some m'"
    by blast
  with f n' l i show ?case
    by (intro exI [of _ f'] exI [of _ m']) simp
qed

section \<open>Trees without placeholders\<close>

lemma processNode_noPlaceholders: "noPlaceholders h n \<Longrightarrow> processNode h rs n = Inr n"
proof (cases n)
  case (Element tag attrs children)
  assume np: "noPlaceholders h n"
  with Element have a: "processAttributes rs attrs = Inr attrs"
    by (simp add: processAttributes_unchanged)
  from np Element show ?thesis
    by (auto simp: processNode_Element a)
next
  case (Text v)
  assume "noPlaceholders h n"
  with Text show ?thesis by (simp add: processNode.simps)
next
  case (Comment v)
  then show ?thesis by (simp add: processNode.simps)
next
  case (Template attrs content)
  assume "noPlaceholders h n"
  with Template show ?thesis
    by (simp add: processNode.simps processAttributes_unchanged)
qed

lemma depth_child:
  "c \<in> set children \<Longrightarrow> depth c \<le> foldr (\<lambda>c m. max (depth c) m) children 0"
  by (induction children) auto

lemma processTree_noPlaceholders:
  "noPlaceholders h n \<Longrightarrow> depth n \<le> fuel \<Longrightarrow> processTree h rs fuel n = Some (Inr n)"
proof (induction n arbitrary: fuel)
  case (Element tag attrs children)
  from Element.prems(2) obtain f where f: "fuel = Suc f"
    by (cases fuel) auto
  have "processTree h rs f c = Some (Inr c)" if "c \<in> set children" for c
  proof (rule Element.IH [OF that])
    show "noPlaceholders h c" using Element.prems(1) that by simp
    show "depth c \<le> f" using depth_child [OF that] Element.prems(2) f by simp
  qed
  then have "processChildren h rs f children = Some (Inr children)"
    by (simp add: processChildren_unchanged)
  then show ?case
    by (simp add: f processNode_noPlaceholders [OF Element.prems(1)])
next
  case (Text v)
  then obtain f where f: "fuel = Suc f"
    by (cases fuel) auto
  show ?case
    by (simp add: f processNode_noPlaceholders [OF Text.prems(1)])
next
  case (Comment v)
  then obtain f where f: "fuel = Suc f"
    by (cases fuel) auto
  show ?case
    by (simp add: f processNode_noPlaceholders [OF Comment.prems(1)])
next
  case (Template attrs content)
  then obtain f where f: "fuel = Suc f"
    by (cases fuel) auto
  show ?case
    by (simp add: f processNode_noPlaceholders [OF Template.prems(1)])
qed


section \<open>Templates that resolve\<close>

lemma processChildren_returns:
  "\<forall>c \<in> set cs. \<exists>f0 c'. \<forall>f \<ge> f0. processTree h rs f c = Some (Inr c') \<Longrightarrow>
   \<exists>f0 cs'. \<forall>f \<ge> f0. processChildren h rs f cs = Some (Inr cs')"
proof (induction cs)
  case Nil
  show ?case by simp
next
  case (Cons c cs)
  from Cons.prems obtain f1 c' where c: "\<forall>f \<ge> f1. processTree h rs f c = Some (Inr c')"
    by auto
  from Cons obtain f2 cs' where cs: "\<forall>f \<ge> f2. processChildren h rs f cs = Some (Inr cs')"
    by auto
  have "\<forall>f \<ge> max f1 f2. processChildren h rs f (c # cs) = Some (Inr (c' # cs'))"
    using c cs by simp
  then show ?case by blast
qed

lemma resolves_returns:
  "resolves h rs n \<Longrightarrow> \<exists>f0 n'. \<forall>f \<ge> f0. processTree h rs f n = Some (Inr n')"
proof (induction n)
  case (Element tag attrs children)
  from Element.prems obtain n1 where n1: "processNode h rs (Element tag attrs children) = Inr n1"
    by (auto split: sum.splits)
  from processNode_kind [OF n1] obtain a cs where e: "n1 = Element tag a cs"
    by auto
  have "\<exists>f0 cs'. \<forall>f \<ge> f0. processChildren h rs f cs = Some (Inr cs')"
  proof (cases "isLeafElementNode (Element tag attrs children)
      \<and> matchRegexp (getInnerHTML h tag children) \<noteq> None")
    case True
    with Element.prems n1 e have np: "\<forall>c \<in> set cs. noPlaceholders h c"
      by simp
    have "\<forall>c \<in> set cs. \<exists>f0 c'. \<forall>f \<ge> f0. processTree h rs f c = Some (Inr c')"
    proof
      fix c
      assume "c \<in> set cs"
      with np have "\<forall>f \<ge> depth c. processTree h rs f c = Some (Inr c)"
        by (simp add: processTree_noPlaceholders)
      then show "\<exists>f0 c'. \<forall>f \<ge> f0. processTree h rs f c = Some (Inr c')"
        by blast
    qed
    then show ?thesis by (rule processChildren_returns)
  next
    case False
    with n1 e have cs: "cs = children"
      by (auto simp: processNode_Element split: sum.splits if_splits)
    from False Element.prems n1 have "\<forall>c \<in> set children. resolves h rs c"
      by auto
    with Element.IH have "\<forall>c \<in> set children. \<exists>f0 c'. \<forall>f \<ge> f0. processTree h rs f c = Some (Inr c')"
      by blast
    then show ?thesis unfolding cs by (rule processChildren_returns)
  qed
  then obtain f0 cs' where c: "\<forall>f \<ge> f0. processChildren h rs f cs = Some (Inr cs')"
    by blast
  have "\<forall>f \<ge> Suc f0. processTree h rs f (Element tag attrs children)
      = Some (Inr (Element tag a cs'))"
  proof (intro allI impI)
    fix f
    assume "Suc f0 \<le> f"
    then obtain g where g: "f = Suc g" and "f0 \<le> g"
      by (cases f) auto
    with c have "processChildren h rs g cs = Some (Inr cs')" by simp
    with n1 e g show "processTree h rs f (Element tag attrs children)
      = Some (Inr (Element tag a cs'))"
      by (simp add: processTree_Suc)
  qed
  then show ?case by blast
next
  case (Text v)
  then obtain n1 where n1: "processNode h rs (Text v) = Inr n1"
    by (auto split: sum.splits)
  from processNode_kind [OF n1] obtain s where "n1 = Text s" by auto
  with n1 have "\<forall>f \<ge> Suc 0. processTree h rs f (Text v) = Some (Inr (Text s))"
    by (auto simp: processTree_Suc dest!: Suc_le_D)
  then show ?case by blast
next
  case (Comment v)
  have "\<forall>f \<ge> Suc 0. processTree h rs f (Comment v) = Some (Inr (Comment v))"
    by (auto simp: processTree_Suc processNode.simps dest!: Suc_le_D)
  then show ?case by blast
next
  case (Template attrs content)
  then obtain n1 where n1: "processNode h rs (Template attrs content) = Inr n1"
    by (auto split: sum.splits)
  from processNode_kind [OF n1] obtain a where "n1 = Template a content" by auto
  with n1 have "\<forall>f \<ge> Suc 0. processTree h rs f (Template attrs content)
      = Some (Inr (Template a content))"
    by (auto simp: processTree_Suc dest!: Suc_le_D)
  then show ?case by blast
qed

text \<open>The traversal keeps the body of the document.\<close>

lemma processTree_isBody:
  assumes "processTree h rs fuel n = Some (Inr n')"
  shows "isBody n' = isBody n"
proof (cases fuel)
  case 0
  with assms show ?thesis by simp
next
  case (Suc f)
  show ?thesis
  proof (cases n)
    case (Element tag attrs children)
    from processTree_Element [OF assms [unfolded Element]] Element show ?thesis by auto
  next
    case (Text v)
    from processTree_Text [OF assms [unfolded Text]] Text show ?thesis by auto
  next
    case (Comment v)
    with assms Suc show ?thesis by (auto simp: processTree_Suc processNode.simps)
  next
    case (Template attrs content)
    from assms Suc Template obtain n1 where n1: "processNode h rs (Template attrs content) = Inr n1"
      by (auto simp: processTree_Suc split: sum.splits)
    from processNode_kind [OF n1] obtain a where "n1 = Template a content" by auto
    with assms Suc Template n1 show ?thesis by (auto simp: processTree_Suc)
  qed
qed

lemma documentBody_kept:
  assumes "processTree h rs fuel doc = Some (Inr doc')" and "documentBody doc \<noteq> None"
  shows "documentBody doc' \<noteq> None"
proof -
  from assms(2) obtain tag attrs cs where d: "doc = Element tag attrs cs"
    and b: "find isBody cs \<noteq> None"
    by (cases doc) auto
  from b obtain i where i: "i < length cs" and bi: "isBody (cs ! i)"
    by (auto simp: find_None_iff in_set_conv_nth)
  from bi obtain t a cs1 where e: "cs ! i = Element t a cs1"
    by (cases "cs ! i") auto
  have nl: "\<not> isLeafElementNode (Element tag attrs cs)"
    using i e by (rule not_leaf_above)
  from processTree_Element [OF assms(1) [unfolded d]]
  obtain f a' cs0 cs' where p: "processNode h rs (Element tag attrs cs) = Inr (Element tag a' cs0)"
    and ch: "processChildren h rs f cs0 = Some (Inr cs')"
    and d': "doc' = Element tag a' cs'"
    by blast
  from p nl have "cs0 = cs"
    by (auto simp: processNode_not_leaf split: sum.splits)
  with ch have "processChildren h rs f cs = Some (Inr cs')" by simp
  from processChildren_nth [OF this] i have l: "length cs' = length cs"
    and ci: "processTree h rs f (cs ! i) = Some (Inr (cs' ! i))"
    by auto
  from processTree_isBody [OF ci] bi have "isBody (cs' ! i)" by simp
  with l i have "find isBody cs' \<noteq> None"
    by (auto simp: find_None_iff in_set_conv_nth)
  with d' show ?thesis by simp
qed

section \<open>From the traversal to fromTemplateLiteral\<close>

lemma fromTemplateLiteral_processTree:
  assumes "doc = parseFromString h (''<body>'' @ joinParts strings 0 rs @ ''</body>'')"
  shows "fromTemplateLiteral h fuel strings rs =
     (case processTree h rs fuel doc of
        None \<Rightarrow> None
      | Some (Inl e) \<Rightarrow> Some (Inl e)
      | Some (Inr doc') \<Rightarrow>
          (case documentBody doc' of
             None \<Rightarrow> Some (Inl HostTypeError)
           | Some b \<Rightarrow> Some (Inr (TrustedHTML (innerHTML h b)))))"
  unfolding assms
  by (simp add: fromTemplateLiteral_def interpolate_def Let_def split: option.splits sum.splits)

lemma fromTemplateLiteral_value:
  assumes "fromTemplateLiteral h fuel strings rs = Some (Inr t)"
    and "doc = parseFromString h (''<body>'' @ joinParts strings 0 rs @ ''</body>'')"
  shows "\<exists>doc' b. processTree h rs fuel doc = Some (Inr doc') \<and> documentBody doc' = Some b
    \<and> t = TrustedHTML (innerHTML h b)"
  using assms(1) unfolding fromTemplateLiteral_processTree [OF assms(2)]
  by (auto split: option.splits sum.splits)


lemma fromTemplateLiteral_resolves:
  assumes "doc = parseFromString h (''<body>'' @ joinParts strings 0 rs @ ''</body>'')"
    and "documentBody doc \<noteq> None" and "resolves h rs doc"
  shows "\<exists>t f0. \<forall>fuel \<ge> f0. fromTemplateLiteral h fuel strings rs = Some (Inr t)"
proof -
  from resolves_returns [OF assms(3)] obtain f0 doc' where
    r: "\<forall>f \<ge> f0. processTree h rs f doc = Some (Inr doc')"
    by blast
  then have "processTree h rs f0 doc = Some (Inr doc')" by simp
  from documentBody_kept [OF this assms(2)] obtain b where b: "documentBody doc' = Some b"
    by auto
  have "\<forall>fuel \<ge> f0. fromTemplateLiteral h fuel strings rs = Some (Inr (TrustedHTML (innerHTML h b)))"
    unfolding fromTemplateLiteral_processTree [OF assms(1)] using r b by simp
  then show ?thesis by blast
qed

section \<open>Evaluation at concrete inputs\<close>

lemma placeholder_0: "placeholder 0 = ''$$$0$$$''"
  by (simp add: placeholder_def numberToString.simps digitChar_def)

lemma placeholder_1: "placeholder (Suc 0) = ''$$$1$$$''"
  by (simp add: placeholder_def numberToString.simps digitChar_def)

lemma Number_0_1: "Number ''0'' = 0" "Number ''1'' = 1"
  by (simp_all add: Number_def digitValue_def)

lemmas regexp_simps =
  matchRegexp_def replaceRegexp_def matchAt_def isDigit_def Number_0_1 getResult_def
  requireTrustedHTML_def expressionResultString_def replaceWithExpressionResult_def

lemmas attribute_simps =
  processAttributes_def setAttribute_def isNameStartChar_def isNameChar_def

lemmas host_simps =
  exampleHost_def exampleDocuments_def exampleFragments_def htmlDocument_def
  serializeChildren_def serializeAttribute_def rawTextElements_def voidElements_def
  escapeTextChar_def escapeAttrChar_def

lemmas template_simps =
  fromTemplateLiteral_def interpolate_def placeholder_0 placeholder_1 processNode.simps
  isLeafElementNode_def toString_def

section \<open>Properties of fromTemplateLiteral without expression results\<close>

lemma joinParts_no_results: "joinParts strings i [] = concat strings"
  by (induction strings arbitrary: i) simp_all

text \<open>
  Without expression results the text of the instance is not the concatenation of the
  template parts in general: the parts are parsed and the tree is serialised again. For the
  one part \<^verbatim>\<open><div>\<close> the parser closes the element, and the text is \<^verbatim>\<open><div></div>\<close>.
\<close>

theorem template_without_results_counterexample:
  "fromTemplateLiteral exampleHost (Suc (Suc (Suc 0))) [''<div>''] []
     = Some (Inr (TrustedHTML ''<div></div>''))
   \<and> toString (TrustedHTML ''<div></div>'') \<noteq> concat [''<div>'']"
  by (simp add: template_simps host_simps attribute_simps)

text \<open>
  Claim C9, as amended. For every list of template parts and no expression results: when the
  tree that the host parses from the concatenation of the parts (between \<^verbatim>\<open><body>\<close> and
  \<^verbatim>\<open></body>\<close>) holds no placeholder in an attribute value, in the inner HTML of a leaf
  element or in a text node, \<open>fromTemplateLiteral\<close> returns, with fuel for the levels of the
  tree, an instance whose text is the inner HTML of the body of that tree.
\<close>

theorem template_without_results:
  assumes "noPlaceholders h (parseFromString h (''<body>'' @ concat strings @ ''</body>''))"
    and "documentBody (parseFromString h (''<body>'' @ concat strings @ ''</body>'')) = Some b"
    and "depth (parseFromString h (''<body>'' @ concat strings @ ''</body>'')) \<le> fuel"
  shows "fromTemplateLiteral h fuel strings [] = Some (Inr (TrustedHTML (innerHTML h b)))"
  using processTree_noPlaceholders [OF assms(1,3), of "[]"] assms(2)
  by (simp add: fromTemplateLiteral_def interpolate_def joinParts_no_results)

theorem template_without_results_witness:
  "fromTemplateLiteral exampleHost (Suc (Suc (Suc (Suc 0)))) [''<p>a</p>'', ''<p>b</p>''] []
     = Some (Inr (TrustedHTML ''<p>a</p><p>b</p>''))"
proof -
  let ?doc = "htmlDocument [Element ''p'' [] [Text ''a''], Element ''p'' [] [Text ''b'']]"
  have p: "parseFromString exampleHost (''<body>'' @ concat [''<p>a</p>'', ''<p>b</p>''] @ ''</body>'')
      = ?doc"
    by (simp add: exampleHost_def exampleDocuments_def)
  have n: "noPlaceholders exampleHost ?doc"
    by (simp add: htmlDocument_def isLeafElementNode_def matchRegexp_def matchAt_def
        exampleHost_def serializeChildren_def rawTextElements_def escapeTextChar_def)
  have b: "documentBody ?doc
      = Some (Element ''body'' [] [Element ''p'' [] [Text ''a''], Element ''p'' [] [Text ''b'']])"
    by (simp add: htmlDocument_def)
  have d: "depth ?doc \<le> Suc (Suc (Suc (Suc 0)))"
    by (simp add: htmlDocument_def)
  have i: "innerHTML exampleHost
        (Element ''body'' [] [Element ''p'' [] [Text ''a''], Element ''p'' [] [Text ''b'']])
      = ''<p>a</p><p>b</p>''"
    by (simp add: exampleHost_def serializeChildren_def rawTextElements_def escapeTextChar_def
        voidElements_def)
  from template_without_results [of exampleHost "[''<p>a</p>'', ''<p>b</p>'']", unfolded p, OF n b d]
  show ?thesis by (simp only: i)
qed

text \<open>
  The hypothesis on placeholders is needed: a template part that itself holds the text of a
  placeholder is treated as one, and with no expression results a leaf element fails on it.
\<close>

lemma template_without_results_collision:
  "fromTemplateLiteral exampleHost (Suc (Suc (Suc (Suc 0)))) [''<b>$$$0$$$</b>''] []
     = Some (Inl UntrustedMarkupError)"
  by (simp add: template_simps host_simps attribute_simps regexp_simps)

section \<open>Properties of fromTemplateLiteral: the example of the documentation\<close>

text \<open>
  Claim C3. For the template parts \<^verbatim>\<open><div id="\<close>, \<^verbatim>\<open>">\<close> and the empty string, and the
  expression results \<^verbatim>\<open>'abc'\<close> and \<open>escape\<close> of \<^verbatim>\<open><b>\<close>, \<open>fromTemplateLiteral\<close> returns
  an instance whose text is \<^verbatim>\<open><div id="abc">&lt;b&gt;</div>\<close>, with any fuel from four on:
  \<open>processNode\<close> turns the \<^verbatim>\<open>div\<close> with the two placeholders into the \<^verbatim>\<open>div\<close> whose
  attribute is \<^verbatim>\<open>abc\<close> and whose child is the text parsed from the escaped markup. The
  hypotheses say what the browser does with the strings and trees of this example: how it
  parses the joined string (the \<^verbatim>\<open>div\<close> left open is closed at the end of the body), that
  the inner HTML of the \<^verbatim>\<open>div\<close> is its placeholder, how it parses the escaped markup inside
  the \<^verbatim>\<open>div\<close>, and how it serialises the result.
\<close>

theorem template_example:
  assumes doc: "parseFromString h ''<body><div id=\"$$$0$$$\">$$$1$$$</body>''
      = Element ''html'' []
          [Element ''head'' [] [],
           Element ''body'' [] [Element ''div'' [(''id'', ''$$$0$$$'')] [Text ''$$$1$$$'']]]"
    and inner: "getInnerHTML h ''div'' [Text ''$$$1$$$''] = ''$$$1$$$''"
    and frag: "setInnerHTML h ''div'' ''&lt;b&gt;'' = [Text ''<b>'']"
    and out: "getInnerHTML h ''body'' [Element ''div'' [(''id'', ''abc'')] [Text ''<b>'']]
      = ''<div id=\"abc\">&lt;b&gt;</div>''"
  shows "fromTemplateLiteral h (Suc (Suc (Suc (Suc fuel)))) [''<div id=\"'', ''\">'', '''']
           [VString ''abc'', VTrusted (escape ''<b>'')]
         = Some (Inr (TrustedHTML ''<div id=\"abc\">&lt;b&gt;</div>''))
     \<and> processNode h [VString ''abc'', VTrusted (escape ''<b>'')]
           (Element ''div'' [(''id'', ''$$$0$$$'')] [Text ''$$$1$$$''])
         = Inr (Element ''div'' [(''id'', ''abc'')] [Text ''<b>''])"
proof -
  let ?rs = "[VString ''abc'', VTrusted (escape ''<b>'')]"
  have j: "joinParts [''<div id=\"'', ''\">'', ''''] 0 ?rs = ''<div id=\"$$$0$$$\">$$$1$$$''"
    by (simp add: placeholder_0 placeholder_1)
  have a: "processAttributes ?rs [(''id'', ''$$$0$$$'')] = Inr [(''id'', ''abc'')]"
    by (simp add: attribute_simps regexp_simps)
  have e: "escape ''<b>'' = TrustedHTML ''&lt;b&gt;''"
    by (simp add: escape_def escapeString_def replaceAllChar_def)
  have r: "replaceRegexp (requireTrustedHTML ?rs) ''$$$1$$$'' = Inr ''&lt;b&gt;''"
    by (simp add: regexp_simps e toString_def)
  have m: "matchRegexp ''$$$1$$$'' \<noteq> None"
    by (simp add: regexp_simps)
  have d: "processNode h ?rs (Element ''div'' [(''id'', ''$$$0$$$'')] [Text ''$$$1$$$''])
      = Inr (Element ''div'' [(''id'', ''abc'')] [Text ''<b>''])"
    using m by (simp add: processNode_Element a inner r frag isLeafElementNode_def)
  have t: "processNode h ?rs (Text ''<b>'') = Inr (Text ''<b>'')"
    by (simp add: processNode.simps regexp_simps)
  have w: "processTree h ?rs (Suc (Suc (Suc (Suc fuel))))
        (Element ''html'' []
          [Element ''head'' [] [],
           Element ''body'' [] [Element ''div'' [(''id'', ''$$$0$$$'')] [Text ''$$$1$$$'']]])
      = Some (Inr (Element ''html'' []
          [Element ''head'' [] [],
           Element ''body'' [] [Element ''div'' [(''id'', ''abc'')] [Text ''<b>'']]]))"
    by (simp add: processNode_not_leaf isLeafElementNode_def processAttributes_Nil d t)
  have "interpolate h (Suc (Suc (Suc (Suc fuel)))) [''<div id=\"'', ''\">'', ''''] ?rs
      = Some (Inr ''<div id=\"abc\">&lt;b&gt;</div>'')"
    unfolding interpolate_def j by (simp add: doc w out del: processTree.simps)
  then show ?thesis
    by (simp add: fromTemplateLiteral_def d)
qed

theorem template_example_witness:
  "fromTemplateLiteral exampleHost (Suc (Suc (Suc (Suc 0)))) [''<div id=\"'', ''\">'', '''']
     [VString ''abc'', VTrusted (escape ''<b>'')]
   = Some (Inr (TrustedHTML ''<div id=\"abc\">&lt;b&gt;</div>''))"
proof -
  have doc: "parseFromString exampleHost ''<body><div id=\"$$$0$$$\">$$$1$$$</body>''
      = Element ''html'' []
          [Element ''head'' [] [],
           Element ''body'' [] [Element ''div'' [(''id'', ''$$$0$$$'')] [Text ''$$$1$$$'']]]"
    by (simp add: exampleHost_def exampleDocuments_def htmlDocument_def)
  have inner: "getInnerHTML exampleHost ''div'' [Text ''$$$1$$$''] = ''$$$1$$$''"
    by (simp add: exampleHost_def serializeChildren_def rawTextElements_def escapeTextChar_def)
  have frag: "setInnerHTML exampleHost ''div'' ''&lt;b&gt;'' = [Text ''<b>'']"
    by (simp add: exampleHost_def exampleFragments_def)
  have out: "getInnerHTML exampleHost ''body'' [Element ''div'' [(''id'', ''abc'')] [Text ''<b>'']]
      = ''<div id=\"abc\">&lt;b&gt;</div>''"
    by (simp add: exampleHost_def serializeChildren_def rawTextElements_def escapeTextChar_def
        voidElements_def serializeAttribute_def escapeAttrChar_def)
  from template_example [OF doc inner frag out, of 0] show ?thesis
    by blast
qed

section \<open>Properties of fromTemplateLiteral: leaf elements\<close>













text \<open>
  The loop of the source need not end: when the markup of an instance holds the placeholder
  that it replaces, each visit of the new leaf element replaces its children by the same
  markup again. No fuel suffices for this template.
\<close>

lemma traversal_need_not_end:
  "processTree exampleHost [VTrusted (TrustedHTML ''<b>$$$0$$$</b>'')] fuel
     (Element tag [] [Text ''$$$0$$$'']) = None"
proof (induction fuel arbitrary: tag)
  case 0
  show ?case by simp
next
  case (Suc fuel)
  have s: "scanPlaceholders (getInnerHTML exampleHost tag [Text ''$$$0$$$'']) = [Inr ''0'']"
    by (simp add: exampleHost_def serializeChildren_def escapeTextChar_def matchAt_def isDigit_def)
  have "processNode exampleHost [VTrusted (TrustedHTML ''<b>$$$0$$$</b>'')]
      (Element tag [] [Text ''$$$0$$$''])
    = Inr (Element tag [] [Element ''b'' [] [Text ''$$$0$$$'']])"
    by (simp add: processNode.simps processAttributes_Nil isLeafElementNode_def matchRegexp_def
        replaceRegexp_def s requireTrustedHTML_def getResult_def Number_0_1 toString_def)
      (simp add: exampleHost_def exampleFragments_def)
  then show ?case by (simp add: Suc.IH)
qed

lemma template_need_not_end:
  "fromTemplateLiteral exampleHost fuel [''<b>'', ''</b>'']
     [VTrusted (TrustedHTML ''<b>$$$0$$$</b>'')] = None"
proof -
  let ?rs = "[VTrusted (TrustedHTML ''<b>$$$0$$$</b>'')]"
  let ?doc = "htmlDocument [Element ''b'' [] [Text ''$$$0$$$'']]"
  have doc: "?doc = parseFromString exampleHost (''<body>'' @ joinParts [''<b>'', ''</b>''] 0 ?rs @ ''</body>'')"
    by (simp add: placeholder_0 exampleHost_def exampleDocuments_def)
  have "processTree exampleHost ?rs fuel ?doc = None"
  proof (cases fuel)
    case 0
    then show ?thesis by simp
  next
    case (Suc f)
    have "processChildren exampleHost ?rs f
        [Element ''head'' [] [], Element ''body'' [] [Element ''b'' [] [Text ''$$$0$$$'']]] = None"
    proof (cases f)
      case 0
      then show ?thesis by simp
    next
      case (Suc g)
      have "processTree exampleHost ?rs (Suc g) (Element ''body'' [] [Element ''b'' [] [Text ''$$$0$$$'']])
          = None"
        by (simp add: processNode_not_leaf isLeafElementNode_def processAttributes_Nil
            traversal_need_not_end)
      then show ?thesis
        by (simp add: Suc processNode_not_leaf isLeafElementNode_def processAttributes_Nil)
    qed
    then show ?thesis
      by (simp add: Suc htmlDocument_def processNode_not_leaf isLeafElementNode_def
          processAttributes_Nil)
  qed
  then show ?thesis
    by (simp add: fromTemplateLiteral_processTree [OF doc])
qed

section \<open>Properties of fromTemplateLiteral: attributes\<close>

text \<open>The loop of the older revision.\<close>

lemma forEachAttribute_legacy_step:
  assumes "forEachAttribute_legacy rs (name # names) attrs = Inr attrs'"
  shows "\<exists>attrs1. forEachAttribute_legacy rs names attrs1 = Inr attrs'
    \<and> map fst attrs1 = map fst attrs
    \<and> (\<forall>n. n \<noteq> name \<longrightarrow> map_of attrs1 n = map_of attrs n)
    \<and> (\<forall>v. map_of attrs name = Some v \<longrightarrow>
           (\<exists>s. replaceRegexp (expressionResultString rs) v = Inr s \<and> map_of attrs1 name = Some s))"
proof (cases "map_of attrs name")
  case None
  with assms show ?thesis by auto
next
  case (Some v)
  show ?thesis
  proof (cases "matchRegexp v")
    case None
    with Some assms show ?thesis by (auto simp: replaceRegexp_no_match)
  next
    case (Some p)
    with \<open>map_of attrs name = Some v\<close> assms
    obtain s where s: "replaceRegexp (expressionResultString rs) v = Inr s"
      and r: "forEachAttribute_legacy rs names (setAttrValue attrs name s) = Inr attrs'"
      by (auto split: sum.splits)
    show ?thesis
      using s r \<open>map_of attrs name = Some v\<close>
      by (intro exI [of _ "setAttrValue attrs name s"])
        (simp add: map_of_setAttrValue names_setAttrValue)
  qed
qed

lemma forEachAttribute_legacy_names:
  "forEachAttribute_legacy rs names attrs = Inr attrs' \<Longrightarrow> map fst attrs' = map fst attrs"
proof (induction names arbitrary: attrs)
  case Nil
  then show ?case by simp
next
  case (Cons name names)
  from forEachAttribute_legacy_step [OF Cons.prems]
  obtain attrs1 where "forEachAttribute_legacy rs names attrs1 = Inr attrs'"
    and "map fst attrs1 = map fst attrs"
    by blast
  with Cons.IH show ?case by simp
qed

lemma forEachAttribute_legacy_other:
  "forEachAttribute_legacy rs names attrs = Inr attrs' \<Longrightarrow> n \<notin> set names \<Longrightarrow>
   map_of attrs' n = map_of attrs n"
proof (induction names arbitrary: attrs)
  case Nil
  then show ?case by simp
next
  case (Cons name names)
  from forEachAttribute_legacy_step [OF Cons.prems(1)]
  obtain attrs1 where 1: "forEachAttribute_legacy rs names attrs1 = Inr attrs'"
    and 2: "\<And>n. n \<noteq> name \<Longrightarrow> map_of attrs1 n = map_of attrs n"
    by blast
  from Cons.prems(2) have "n \<noteq> name" "n \<notin> set names" by auto
  with Cons.IH [OF 1] 2 show ?case by simp
qed

lemma forEachAttribute_legacy_replaced:
  "forEachAttribute_legacy rs names attrs = Inr attrs' \<Longrightarrow> distinct names \<Longrightarrow>
   n \<in> set names \<Longrightarrow> map_of attrs n = Some v \<Longrightarrow>
   \<exists>s. replaceRegexp (expressionResultString rs) v = Inr s \<and> map_of attrs' n = Some s"
proof (induction names arbitrary: attrs)
  case Nil
  then show ?case by simp
next
  case (Cons name names)
  from forEachAttribute_legacy_step [OF Cons.prems(1)]
  obtain attrs1 where 1: "forEachAttribute_legacy rs names attrs1 = Inr attrs'"
    and 2: "\<And>n. n \<noteq> name \<Longrightarrow> map_of attrs1 n = map_of attrs n"
    and 3: "\<And>v. map_of attrs name = Some v \<Longrightarrow>
           (\<exists>s. replaceRegexp (expressionResultString rs) v = Inr s \<and> map_of attrs1 name = Some s)"
    by blast
  from Cons.prems(2) have d: "distinct names" and nin: "name \<notin> set names" by auto
  show ?case
  proof (cases "n = name")
    case True
    with 3 Cons.prems(4) forEachAttribute_legacy_other [OF 1 nin] show ?thesis by auto
  next
    case False
    with Cons.prems(3) have "n \<in> set names" by simp
    moreover from False 2 Cons.prems(4) have "map_of attrs1 n = Some v" by simp
    ultimately show ?thesis
      using Cons.IH [OF 1 d] by blast
  qed
qed

lemma replaceRegexp_only_placeholder:
  "replaceRegexp (expressionResultString rs) (placeholder k) = toStringJS (getResult rs k)"
  using replaceRegexp_placeholder [of "[]" "expressionResultString rs" k "[]"]
  by (simp add: expressionResultString_numberToString replaceRegexp_def split: sum.splits)

lemma processAttributes_legacy_placeholder:
  assumes "processAttributes_legacy rs attrs = Inr attrs'"
    and "distinct (map fst attrs)" and "(name, placeholder k) \<in> set attrs"
  shows "(\<exists>s. toStringJS (getResult rs k) = Inr s \<and> map_of attrs' name = Some s)
    \<and> map fst attrs' = map fst attrs"
proof -
  have m: "map_of attrs name = Some (placeholder k)"
    using assms(2,3) by simp
  have n: "name \<in> set (map fst attrs)"
    using assms(3) by force
  from forEachAttribute_legacy_replaced [OF assms(1) [unfolded processAttributes_legacy_def]
      assms(2) n m]
    forEachAttribute_legacy_names [OF assms(1) [unfolded processAttributes_legacy_def]]
  show ?thesis by (simp add: replaceRegexp_only_placeholder)
qed

text \<open>
  What the traversal makes of an element of the parsed tree: its attributes are those the loop
  over the attributes returns, and its children are those of the same element without
  attributes.
\<close>

lemma processTree_without_attributes:
  assumes "processTree h rs f (Element tag attrs children) = Some (Inr m')"
  shows "\<exists>attrs' children'. m' = Element tag attrs' children'
    \<and> processAttributes rs attrs = Inr attrs'
    \<and> processTree h rs f (Element tag [] children) = Some (Inr (Element tag [] children'))"
proof -
  from processTree_Element [OF assms] obtain g a' cs0 cs' where
    f: "f = Suc g"
    and p: "processNode h rs (Element tag attrs children) = Inr (Element tag a' cs0)"
    and ch: "processChildren h rs g cs0 = Some (Inr cs')"
    and m': "m' = Element tag a' cs'"
    by blast
  from p have a: "processAttributes rs attrs = Inr a'"
    by (auto simp: processNode_Element split: sum.splits if_splits)
  from p a have "processNode h rs (Element tag [] children) = Inr (Element tag [] cs0)"
    by (auto simp: processNode_Element processAttributes_Nil isLeafElementNode_Element
        split: sum.splits if_splits)
  with ch f have "processTree h rs f (Element tag [] children) = Some (Inr (Element tag [] cs'))"
    by (simp add: processTree_Suc)
  with m' a show ?thesis by blast
qed

lemma element_resolved:
  assumes "processTree h rs fuel n = Some (Inr n')"
    and "nodeAt n path = Some (Element tag attrs children)"
  shows "\<exists>attrs' children' f. nodeAt n' path = Some (Element tag attrs' children')
    \<and> processAttributes rs attrs = Inr attrs'
    \<and> processTree h rs f (Element tag [] children) = Some (Inr (Element tag [] children'))"
proof -
  from processTree_nodeAt [OF assms] obtain f m' where
    m: "processTree h rs f (Element tag attrs children) = Some (Inr m')"
    and n': "nodeAt n' path = Some m'"
    by blast
  from processTree_without_attributes [OF m] n' show ?thesis by blast
qed

text \<open>
  An attribute name that is no name of XML, a result without a string form, and an attribute
  in the contents of a \<^verbatim>\<open>template\<close> element: the first two end the call with the
  exception of \<^verbatim>\<open>setAttribute\<close>, the third stays as it is, placeholder included.
\<close>

theorem attribute_placeholder_raw_counterexample:
  "fromTemplateLiteral exampleHost (Suc (Suc (Suc (Suc 0))))
      [''<button @click=\"'', ''\"></button>''] [VString ''go()'']
     = Some (Inl InvalidCharacterError)
   \<and> fromTemplateLiteral exampleHost (Suc (Suc (Suc (Suc 0))))
      [''<a href=\"'', ''\">x</a><br>''] [VThrowing HostTypeError]
     = Some (Inl HostTypeError)
   \<and> fromTemplateLiteral exampleHost (Suc (Suc (Suc (Suc 0))))
      [''<template><a href=\"'', ''\"></a></template>''] [VString ''x'']
     = Some (Inr (TrustedHTML ''<template><a href=\"$$$0$$$\"></a></template>''))"
  by (simp add: template_simps host_simps attribute_simps regexp_simps)

text \<open>
  Claim C2, as amended. Let an element of the parsed tree (a node that the traversal visits:
  the contents of a \<^verbatim>\<open>template\<close> element are none) have an attribute whose whole value is
  the placeholder of the expression \<open>k\<close>; the names of its attributes are distinct, as the
  parser makes them.
  \<^item> Whenever \<open>fromTemplateLiteral\<close> returns an instance, its text is the inner HTML of the
    body of a tree in which the element, at its place, has the string form of the result \<open>k\<close>
    as the value of that attribute, as it is: nothing is escaped and no kind of result is
    refused. The attributes keep their names and order, and the children of the element are
    those that the traversal returns for the same element without attributes: the value is
    never parsed. The name of the attribute is a name of XML then.
  \<^item> \<open>fromTemplateLiteral\<close> returns an instance, with enough fuel, when the document has a
    body and the tree resolves.
  \<^item> The loop over the attributes returns when each attribute that holds a placeholder has a
    name of XML and a result with a string form. It raises, and with it \<open>processNode\<close>, when
    the name of the attribute is no name of XML or the result \<open>k\<close> has no string form.
  \<^item> In the older revision, when \<open>processNode\<close> returns, the attribute has the string form of
    the result \<open>k\<close> as its value as well.
\<close>

theorem attribute_placeholder_raw:
  assumes "doc = parseFromString h (''<body>'' @ joinParts strings 0 rs @ ''</body>'')"
    and "nodeAt doc path = Some (Element tag attrs children)"
    and "distinct (map fst attrs)"
    and "(name, placeholder k) \<in> set attrs"
  shows "(\<forall>fuel t. fromTemplateLiteral h fuel strings rs = Some (Inr t) \<longrightarrow>
            (\<exists>doc' b attrs' children' s.
               processTree h rs fuel doc = Some (Inr doc')
               \<and> documentBody doc' = Some b \<and> t = TrustedHTML (innerHTML h b)
               \<and> nodeAt doc' path = Some (Element tag attrs' children')
               \<and> toStringJS (getResult rs k) = Inr s \<and> map_of attrs' name = Some s
               \<and> map fst attrs' = map fst attrs
               \<and> matchesName name
               \<and> (\<exists>f. processTree h rs f (Element tag [] children)
                      = Some (Inr (Element tag [] children')))))
    \<and> (documentBody doc \<noteq> None \<and> resolves h rs doc \<longrightarrow>
          (\<exists>t f0. \<forall>fuel \<ge> f0. fromTemplateLiteral h fuel strings rs = Some (Inr t)))
    \<and> ((\<forall>a \<in> set attrs. \<forall>p. matchRegexp (snd a) = Some p \<longrightarrow>
            matchesName (fst a) \<and> (\<exists>s. toStringJS (getResult rs (Number p)) = Inr s)) \<longrightarrow>
          (\<exists>attrs'. processAttributes rs attrs = Inr attrs'))
    \<and> (\<not> matchesName name \<or> (\<exists>e. toStringJS (getResult rs k) = Inl e) \<longrightarrow>
          (\<exists>e. processAttributes rs attrs = Inl e)
          \<and> (\<exists>e. processNode h rs (Element tag attrs children) = Inl e))
    \<and> (\<forall>n'. processNode_legacy h rs (Element tag attrs children) = Inr n' \<longrightarrow>
          (\<exists>attrs' children' s. n' = Element tag attrs' children'
             \<and> toStringJS (getResult rs k) = Inr s \<and> map_of attrs' name = Some s
             \<and> map fst attrs' = map fst attrs))"
proof (intro conjI allI impI)
  fix fuel t
  assume "fromTemplateLiteral h fuel strings rs = Some (Inr t)"
  from fromTemplateLiteral_value [OF this assms(1)] obtain doc' b where
    p: "processTree h rs fuel doc = Some (Inr doc')" and b: "documentBody doc' = Some b"
    and t: "t = TrustedHTML (innerHTML h b)"
    by blast
  from element_resolved [OF p assms(2)] obtain attrs' children' f where
    n: "nodeAt doc' path = Some (Element tag attrs' children')"
    and a: "processAttributes rs attrs = Inr attrs'"
    and c: "processTree h rs f (Element tag [] children) = Some (Inr (Element tag [] children'))"
    by blast
  from processAttributes_placeholder [OF a assms(3,4)] obtain s where
    "matchesName name" "toStringJS (getResult rs k) = Inr s" "map_of attrs' name = Some s"
    "map fst attrs' = map fst attrs"
    by blast
  with p b t n c
  show "\<exists>doc' b attrs' children' s.
               processTree h rs fuel doc = Some (Inr doc')
               \<and> documentBody doc' = Some b \<and> t = TrustedHTML (innerHTML h b)
               \<and> nodeAt doc' path = Some (Element tag attrs' children')
               \<and> toStringJS (getResult rs k) = Inr s \<and> map_of attrs' name = Some s
               \<and> map fst attrs' = map fst attrs
               \<and> matchesName name
               \<and> (\<exists>f. processTree h rs f (Element tag [] children)
                      = Some (Inr (Element tag [] children')))"
    by blast
next
  assume "documentBody doc \<noteq> None \<and> resolves h rs doc"
  then show "\<exists>t f0. \<forall>fuel \<ge> f0. fromTemplateLiteral h fuel strings rs = Some (Inr t)"
    using fromTemplateLiteral_resolves [OF assms(1)] by blast
next
  assume "\<forall>a \<in> set attrs. \<forall>p. matchRegexp (snd a) = Some p \<longrightarrow>
            matchesName (fst a) \<and> (\<exists>s. toStringJS (getResult rs (Number p)) = Inr s)"
  with assms(3) show "\<exists>attrs'. processAttributes rs attrs = Inr attrs'"
    by (rule processAttributes_succeeds)
next
  assume f: "\<not> matchesName name \<or> (\<exists>e. toStringJS (getResult rs k) = Inl e)"
  show "\<exists>e. processAttributes rs attrs = Inl e"
  proof (cases "processAttributes rs attrs")
    case (Inl e)
    then show ?thesis by blast
  next
    case (Inr attrs')
    from processAttributes_placeholder [OF Inr assms(3,4)] f show ?thesis by auto
  qed
  then show "\<exists>e. processNode h rs (Element tag attrs children) = Inl e"
    by (auto simp: processNode_Element)
next
  fix n'
  assume "processNode_legacy h rs (Element tag attrs children) = Inr n'"
  then obtain attrs' children' where n': "n' = Element tag attrs' children'"
    and a: "processAttributes_legacy rs attrs = Inr attrs'"
    by (auto simp: processNode_legacy_Element split: sum.splits if_splits)
  from processAttributes_legacy_placeholder [OF a assms(3,4)] n'
  show "\<exists>attrs' children' s. n' = Element tag attrs' children'
             \<and> toStringJS (getResult rs k) = Inr s \<and> map_of attrs' name = Some s
             \<and> map fst attrs' = map fst attrs"
    by blast
qed

theorem attribute_placeholder_raw_witness:
  "fromTemplateLiteral exampleHost (Suc (Suc (Suc (Suc 0))))
      [''<a href=\"'', ''\">x</a><br>''] [VString ''javascript:alert(1)'']
     = Some (Inr (TrustedHTML ''<a href=\"javascript:alert(1)\">x</a><br>''))
   \<and> (\<exists>doc' b attrs' children'.
         processTree exampleHost [VString ''javascript:alert(1)''] (Suc (Suc (Suc (Suc 0))))
            (htmlDocument [Element ''a'' [(''href'', ''$$$0$$$'')] [Text ''x''], Element ''br'' [] []])
           = Some (Inr doc')
         \<and> documentBody doc' = Some b
         \<and> TrustedHTML ''<a href=\"javascript:alert(1)\">x</a><br>''
             = TrustedHTML (innerHTML exampleHost b)
         \<and> nodeAt doc' [1, 0] = Some (Element ''a'' attrs' children')
         \<and> map_of attrs' ''href'' = Some ''javascript:alert(1)''
         \<and> map fst attrs' = [''href'']
         \<and> matchesName ''href'')
   \<and> processTree exampleHost [VString ''<script>alert(1)</script>''] (Suc (Suc (Suc (Suc 0))))
         (htmlDocument [Element ''a'' [(''href'', ''$$$0$$$'')] [Text ''x''], Element ''br'' [] []])
       = Some (Inr (htmlDocument
           [Element ''a'' [(''href'', ''<script>alert(1)</script>'')] [Text ''x''],
            Element ''br'' [] []]))
   \<and> resolves exampleHost [VString ''javascript:alert(1)'']
         (htmlDocument [Element ''a'' [(''href'', ''$$$0$$$'')] [Text ''x''], Element ''br'' [] []])
   \<and> (\<exists>t f0. \<forall>fuel \<ge> f0.
         fromTemplateLiteral exampleHost fuel [''<a href=\"'', ''\">x</a><br>'']
           [VString ''javascript:alert(1)''] = Some (Inr t))"
proof -
  let ?rs = "[VString ''javascript:alert(1)'']"
  let ?strings = "[''<a href=\"'', ''\">x</a><br>'']"
  let ?doc = "htmlDocument [Element ''a'' [(''href'', ''$$$0$$$'')] [Text ''x''], Element ''br'' [] []]"
  have doc: "?doc = parseFromString exampleHost (''<body>'' @ joinParts ?strings 0 ?rs @ ''</body>'')"
    by (simp add: placeholder_0 exampleHost_def exampleDocuments_def)
  have at: "nodeAt ?doc [1, 0] = Some (Element ''a'' [(''href'', ''$$$0$$$'')] [Text ''x''])"
    by (simp add: htmlDocument_def)
  have d: "distinct (map fst [(''href'', ''$$$0$$$'')])"
    by simp
  have i: "(''href'', placeholder 0) \<in> set [(''href'', ''$$$0$$$'')]"
    by (simp add: placeholder_0)
  have g: "getResult ?rs 0 = VString ''javascript:alert(1)''"
    by (simp add: getResult_def)
  have f: "fromTemplateLiteral exampleHost (Suc (Suc (Suc (Suc 0)))) ?strings ?rs
     = Some (Inr (TrustedHTML ''<a href=\"javascript:alert(1)\">x</a><br>''))"
    by (simp add: template_simps host_simps attribute_simps regexp_simps)
  have s: "processTree exampleHost [VString ''<script>alert(1)</script>''] (Suc (Suc (Suc (Suc 0)))) ?doc
       = Some (Inr (htmlDocument
           [Element ''a'' [(''href'', ''<script>alert(1)</script>'')] [Text ''x''],
            Element ''br'' [] []]))"
    by (simp add: template_simps host_simps attribute_simps regexp_simps)
  note t = attribute_placeholder_raw [OF doc at d i]
  from t f
  have "\<exists>doc' b attrs' children' s.
         processTree exampleHost ?rs (Suc (Suc (Suc (Suc 0)))) ?doc = Some (Inr doc')
         \<and> documentBody doc' = Some b
         \<and> TrustedHTML ''<a href=\"javascript:alert(1)\">x</a><br>''
             = TrustedHTML (innerHTML exampleHost b)
         \<and> nodeAt doc' [1, 0] = Some (Element ''a'' attrs' children')
         \<and> toStringJS (getResult ?rs 0) = Inr s \<and> map_of attrs' ''href'' = Some s
         \<and> map fst attrs' = map fst [(''href'', ''$$$0$$$'')]
         \<and> matchesName ''href''"
    by blast
  then have 1: "\<exists>doc' b attrs' children'.
         processTree exampleHost ?rs (Suc (Suc (Suc (Suc 0)))) ?doc = Some (Inr doc')
         \<and> documentBody doc' = Some b
         \<and> TrustedHTML ''<a href=\"javascript:alert(1)\">x</a><br>''
             = TrustedHTML (innerHTML exampleHost b)
         \<and> nodeAt doc' [1, 0] = Some (Element ''a'' attrs' children')
         \<and> map_of attrs' ''href'' = Some ''javascript:alert(1)''
         \<and> map fst attrs' = [''href'']
         \<and> matchesName ''href''"
    unfolding g by auto
  have b: "documentBody ?doc \<noteq> None"
    by (simp add: htmlDocument_def)
  have rv: "resolves exampleHost ?rs ?doc"
    by (simp add: htmlDocument_def template_simps host_simps attribute_simps regexp_simps)
  from t b rv
  have 2: "\<exists>t f0. \<forall>fuel \<ge> f0. fromTemplateLiteral exampleHost fuel ?strings ?rs = Some (Inr t)"
    by blast
  from f 1 s rv 2 show ?thesis by blast
qed

section \<open>Properties of fromTemplateLiteral: text nodes\<close>

lemma replaceScanned_pointwise:
  "\<forall>p \<in> set (partIds ts). f p = Inr (g p) \<Longrightarrow>
   replaceScanned f ts = Inr (concat (map (case_sum (\<lambda>c. [c]) g) ts))"
  by (induction ts rule: partIds.induct) simp_all

lemma replaceRegexp_pointwise:
  "\<forall>p \<in> set (partIds (scanPlaceholders s)). f p = Inr (g p) \<Longrightarrow>
   replaceRegexp f s = Inr (substituted g s)"
  by (simp add: replaceRegexp_def substituted_def replaceScanned_pointwise)

lemma text_child_resolved:
  assumes "processTree h rs fuel n = Some (Inr n')"
    and "nodeAt n path = Some (Element tag attrs children)"
    and "\<not> isLeafElementNode (Element tag attrs children)"
    and "i < length children"
    and "children ! i = Text v"
  shows "\<exists>s. replaceRegexp (expressionResultString rs) v = Inr s
    \<and> nodeAt n' (path @ [i]) = Some (Text s)"
proof -
  from processTree_nodeAt [OF assms(1,2)] obtain f m' where
    m: "processTree h rs f (Element tag attrs children) = Some (Inr m')"
    and n': "nodeAt n' path = Some m'"
    by blast
  from processTree_Element [OF m] obtain g a' cs0 cs' where
    p: "processNode h rs (Element tag attrs children) = Inr (Element tag a' cs0)"
    and ch: "processChildren h rs g cs0 = Some (Inr cs')"
    and m': "m' = Element tag a' cs'"
    by blast
  from p assms(3) have "cs0 = children"
    by (auto simp: processNode_not_leaf split: sum.splits)
  with ch have "processChildren h rs g children = Some (Inr cs')" by simp
  from processChildren_nth [OF this] assms(4,5) have l: "length cs' = length children"
    and t: "processTree h rs g (Text v) = Some (Inr (cs' ! i))"
    by auto
  from processTree_Text [OF t] obtain s where
    s: "replaceRegexp (expressionResultString rs) v = Inr s" and c: "cs' ! i = Text s"
    by blast
  from n' m' l assms(4) c have "nodeAt n' (path @ [i]) = Some (Text s)"
    by (simp add: nodeAt_append)
  with s show ?thesis by blast
qed

text \<open>
  A text that is alone at the top level of a template is the only child of the \<^verbatim>\<open>body\<close>
  element, which is a leaf element then: the placeholder is in its inner HTML, and a result
  that is no instance of \<^verbatim>\<open>TrustedHTML\<close> is refused.
\<close>

theorem text_node_raw_substitution_counterexample:
  "fromTemplateLiteral exampleHost (Suc (Suc (Suc 0))) [''a '', '' b''] [VString ''x'']
     = Some (Inl UntrustedMarkupError)"
  by (simp add: template_simps host_simps attribute_simps regexp_simps)

text \<open>
  Claim C8, as amended. Let a text node be a child of an element of the parsed tree that is no
  leaf element: the text node has a sibling.
  \<^item> Whenever \<open>fromTemplateLiteral\<close> returns an instance, its text is the inner HTML of the
    body of a tree in which the text node, at its place, has the value that \<^verbatim>\<open>replace\<close>
    gives: each placeholder replaced by the string form of the expression result it names.
  \<^item> \<open>fromTemplateLiteral\<close> returns an instance, with enough fuel, when the document has a
    body and the tree resolves.
  \<^item> \<open>processNode\<close> fails on a text node only when \<^verbatim>\<open>replace\<close> does, which looks at no
    kind of result: up to the first placeholder nothing changes, the placeholder of \<open>k\<close>
    becomes the string form of the result \<open>k\<close>, and the rest is treated alike; the only
    exception is that of a result that has no string form. When every result named has a
    string form, every placeholder is replaced by it.
\<close>

theorem text_node_raw_substitution:
  assumes "doc = parseFromString h (''<body>'' @ joinParts strings 0 rs @ ''</body>'')"
    and "nodeAt doc path = Some (Element tag attrs children)"
    and "\<not> isLeafElementNode (Element tag attrs children)"
    and "i < length children"
    and "children ! i = Text v"
  shows "(\<forall>fuel t. fromTemplateLiteral h fuel strings rs = Some (Inr t) \<longrightarrow>
            (\<exists>doc' b s. processTree h rs fuel doc = Some (Inr doc')
               \<and> documentBody doc' = Some b \<and> t = TrustedHTML (innerHTML h b)
               \<and> replaceRegexp (expressionResultString rs) v = Inr s
               \<and> nodeAt doc' (path @ [i]) = Some (Text s)))
    \<and> (documentBody doc \<noteq> None \<and> resolves h rs doc \<longrightarrow>
          (\<exists>t f0. \<forall>fuel \<ge> f0. fromTemplateLiteral h fuel strings rs = Some (Inr t)))
    \<and> processNode h rs (Text v) =
          (case replaceRegexp (expressionResultString rs) v of
             Inl e \<Rightarrow> Inl e
           | Inr s \<Rightarrow> Inr (Text s))
    \<and> (\<forall>pre k post. CHR ''$'' \<notin> set pre \<longrightarrow>
          replaceRegexp (expressionResultString rs) (pre @ placeholder k @ post) =
            (case toStringJS (getResult rs k) of
               Inl e \<Rightarrow> Inl e
             | Inr s \<Rightarrow>
                 (case replaceRegexp (expressionResultString rs) post of
                    Inl e \<Rightarrow> Inl e
                  | Inr r \<Rightarrow> Inr (pre @ s @ r))))
    \<and> (\<forall>g. (\<forall>p \<in> set (partIds (scanPlaceholders v)).
                toStringJS (getResult rs (Number p)) = Inr (g p)) \<longrightarrow>
          replaceRegexp (expressionResultString rs) v = Inr (substituted g v))"
proof (intro conjI allI impI)
  fix fuel t
  assume "fromTemplateLiteral h fuel strings rs = Some (Inr t)"
  from fromTemplateLiteral_value [OF this assms(1)] obtain doc' b where
    p: "processTree h rs fuel doc = Some (Inr doc')" and b: "documentBody doc' = Some b"
    and t: "t = TrustedHTML (innerHTML h b)"
    by blast
  from text_child_resolved [OF p assms(2-5)] p b t
  show "\<exists>doc' b s. processTree h rs fuel doc = Some (Inr doc')
               \<and> documentBody doc' = Some b \<and> t = TrustedHTML (innerHTML h b)
               \<and> replaceRegexp (expressionResultString rs) v = Inr s
               \<and> nodeAt doc' (path @ [i]) = Some (Text s)"
    by blast
next
  assume "documentBody doc \<noteq> None \<and> resolves h rs doc"
  then show "\<exists>t f0. \<forall>fuel \<ge> f0. fromTemplateLiteral h fuel strings rs = Some (Inr t)"
    using fromTemplateLiteral_resolves [OF assms(1)] by blast
next
  show "processNode h rs (Text v) =
          (case replaceRegexp (expressionResultString rs) v of
             Inl e \<Rightarrow> Inl e
           | Inr s \<Rightarrow> Inr (Text s))"
    by (rule processNode_Text)
next
  fix pre k post
  assume "CHR ''$'' \<notin> set pre"
  then show "replaceRegexp (expressionResultString rs) (pre @ placeholder k @ post) =
            (case toStringJS (getResult rs k) of
               Inl e \<Rightarrow> Inl e
             | Inr s \<Rightarrow>
                 (case replaceRegexp (expressionResultString rs) post of
                    Inl e \<Rightarrow> Inl e
                  | Inr r \<Rightarrow> Inr (pre @ s @ r)))"
    by (simp add: replaceRegexp_placeholder expressionResultString_numberToString)
next
  fix g
  assume "\<forall>p \<in> set (partIds (scanPlaceholders v)). toStringJS (getResult rs (Number p)) = Inr (g p)"
  then show "replaceRegexp (expressionResultString rs) v = Inr (substituted g v)"
    by (intro replaceRegexp_pointwise)
      (simp add: expressionResultString_def replaceWithExpressionResult_def)
qed

theorem text_node_raw_substitution_witness:
  "fromTemplateLiteral exampleHost (Suc (Suc (Suc (Suc 0)))) [''a '', '' b<br>''] [VString ''<x>'']
     = Some (Inr (TrustedHTML ''a &lt;x&gt; b<br>''))
   \<and> (\<exists>doc' b. processTree exampleHost [VString ''<x>''] (Suc (Suc (Suc (Suc 0))))
            (htmlDocument [Text ''a $$$0$$$ b'', Element ''br'' [] []]) = Some (Inr doc')
          \<and> documentBody doc' = Some b
          \<and> TrustedHTML ''a &lt;x&gt; b<br>'' = TrustedHTML (innerHTML exampleHost b)
          \<and> nodeAt doc' ([1] @ [0]) = Some (Text ''a <x> b''))
   \<and> replaceRegexp (expressionResultString [VString ''<x>'']) ''a $$$0$$$ b'' = Inr ''a <x> b''
   \<and> resolves exampleHost [VString ''<x>'']
         (htmlDocument [Text ''a $$$0$$$ b'', Element ''br'' [] []])
   \<and> (\<exists>t f0. \<forall>fuel \<ge> f0.
         fromTemplateLiteral exampleHost fuel [''a '', '' b<br>''] [VString ''<x>''] = Some (Inr t))"
proof -
  let ?rs = "[VString ''<x>'']"
  let ?strings = "[''a '', '' b<br>'']"
  let ?doc = "htmlDocument [Text ''a $$$0$$$ b'', Element ''br'' [] []]"
  have doc: "?doc = parseFromString exampleHost (''<body>'' @ joinParts ?strings 0 ?rs @ ''</body>'')"
    by (simp add: placeholder_0 exampleHost_def exampleDocuments_def)
  have at: "nodeAt ?doc [1]
      = Some (Element ''body'' [] [Text ''a $$$0$$$ b'', Element ''br'' [] []])"
    by (simp add: htmlDocument_def)
  have nl: "\<not> isLeafElementNode (Element ''body'' [] [Text ''a $$$0$$$ b'', Element ''br'' [] []])"
    by (simp add: isLeafElementNode_def)
  have i: "0 < length [Text ''a $$$0$$$ b'', Element ''br'' [] []]"
    and v: "[Text ''a $$$0$$$ b'', Element ''br'' [] []] ! 0 = Text ''a $$$0$$$ b''"
    by simp_all
  have r: "replaceRegexp (expressionResultString ?rs) ''a $$$0$$$ b'' = Inr ''a <x> b''"
    by (simp add: regexp_simps)
  have f: "fromTemplateLiteral exampleHost (Suc (Suc (Suc (Suc 0)))) ?strings ?rs
     = Some (Inr (TrustedHTML ''a &lt;x&gt; b<br>''))"
    by (simp add: template_simps host_simps attribute_simps regexp_simps)
  from text_node_raw_substitution [OF doc at nl i v] f
  have "\<exists>doc' b s. processTree exampleHost ?rs (Suc (Suc (Suc (Suc 0)))) ?doc = Some (Inr doc')
      \<and> documentBody doc' = Some b
      \<and> TrustedHTML ''a &lt;x&gt; b<br>'' = TrustedHTML (innerHTML exampleHost b)
      \<and> replaceRegexp (expressionResultString ?rs) ''a $$$0$$$ b'' = Inr s
      \<and> nodeAt doc' ([1] @ [0]) = Some (Text s)"
    by blast
  with r have "\<exists>doc' b. processTree exampleHost ?rs (Suc (Suc (Suc (Suc 0)))) ?doc = Some (Inr doc')
      \<and> documentBody doc' = Some b
      \<and> TrustedHTML ''a &lt;x&gt; b<br>'' = TrustedHTML (innerHTML exampleHost b)
      \<and> nodeAt doc' ([1] @ [0]) = Some (Text ''a <x> b'')"
    by auto
  moreover have b: "documentBody ?doc \<noteq> None"
    by (simp add: htmlDocument_def)
  have rv: "resolves exampleHost ?rs ?doc"
    by (simp add: htmlDocument_def template_simps attribute_simps regexp_simps)
  from text_node_raw_substitution [OF doc at nl i v] b rv
  have "\<exists>t f0. \<forall>fuel \<ge> f0. fromTemplateLiteral exampleHost fuel ?strings ?rs = Some (Inr t)"
    by blast
  ultimately show ?thesis using f r rv by blast
qed

end
